theory Spec2Isabelle
  imports Main "HOL-Library.Sublist"
begin

section \<open>The voice-interview client (\<open>livekit-voice-client/src/app/page.tsx\<close>)\<close>

text \<open>
  The page component keeps its lifecycle in React state (\<open>isConnecting\<close>, \<open>isConnected\<close>,
  \<open>room\<close>, \<open>localAudioTrack\<close>, \<open>participants\<close>, \<open>status\<close>, \<open>statusType\<close>) and talks to
  three collaborators: the backend (through \<open>fetch\<close>), the room service (\<open>Room\<close>,
  \<open>createLocalAudioTrack\<close>) and the document. The model passes one state record through
  every function. It holds the React state, and the part of the collaborators that the
  component can change: the calls made so far, in order (\<open>trace\<close>), the rooms created, the
  local tracks created and the audio elements appended to the document body.
  What the collaborators answer is an input, the record \<open>env\<close>.
\<close>

subsection \<open>Configuration\<close>

definition apiUrl :: string where
  "apiUrl = ''http://127.0.0.1:8000''"

definition organization :: string where
  "organization = ''test_org''"

definition referenceNumber :: string where
  "referenceNumber = ''NORMALIZED_TEST_001''"

definition participantName :: string where
  "participantName = ''candidate_prajwal''"

definition roomName :: string where
  "roomName = ''interview_NORMALIZED_TEST_001''"

record TokenResponse =
  success :: bool
  token :: string
  livekit_url :: string
  room_name :: string
  participant_name :: string

subsection \<open>Values of the collaborators\<close>

text \<open>A thrown value: an \<open>Error\<close> object with its message, or anything else.\<close>

datatype thrown = ErrorObj string | NotAnError

fun errorMessage :: "thrown \<Rightarrow> string" where
  "errorMessage (ErrorObj m) = m"
| "errorMessage NotAnError = ''Unknown error''"

datatype statusKind = Info | Success | Error | Warning

datatype RoomEvent =
    Connected
  | ParticipantConnected
  | ParticipantDisconnected
  | TrackSubscribed
  | TrackUnsubscribed
  | Disconnected

datatype trackKind = Audio | Video

record remoteTrack =
  trackSid :: string
  kind :: trackKind

record captureOptions =
  echoCancellation :: bool
  noiseSuppression :: bool
  autoGainControl :: bool

record httpRequest =
  reqMethod :: string
  reqUrl :: string
  reqHeaders :: "(string \<times> string) list"
  reqBody :: "string option"

text \<open>
  A response: its status, what \<open>text()\<close> gives and what \<open>json()\<close> gives (a rejection when
  the body is not JSON).
\<close>

record httpResponse =
  respStatus :: nat
  respText :: string
  respJson :: "thrown + TokenResponse"

definition ok :: "httpResponse \<Rightarrow> bool" where
  "ok r = (200 \<le> respStatus r \<and> respStatus r \<le> 299)"

text \<open>The calls the component makes on its collaborators.\<close>

datatype action =
    Fetch httpRequest
  | NewRoom nat bool bool
  | On nat RoomEvent
  | Connect nat string string
  | CreateLocalAudioTrack captureOptions
  | PublishTrack nat nat
  | TrackStop nat
  | Disconnect nat
  | Attach string
  | AppendChild nat
  | Detach string

text \<open>
  A room as the room service holds it, with the local tracks published on it, the
  identities of the remote participants and the remote tracks subscribed.
  \<open>closureRoom\<close> is the value of the React state
  \<open>room\<close> that the handlers registered on this room captured (through
  \<open>handleParticipantUpdate\<close>, memoised on \<open>room\<close>) when \<open>startVoiceInterview\<close> ran.
\<close>

record roomInfo =
  adaptiveStream :: bool
  dynacast :: bool
  listeners :: "RoomEvent list"
  closureRoom :: "nat option"
  connOpen :: bool
  published :: "nat list"
  remoteIdentities :: "string list"
  subscribed :: "remoteTrack list"

record localTrackInfo =
  captureOpts :: captureOptions
  live :: bool

record audioElement =
  autoplay :: bool
  srcTrack :: "string option"

record state =
  status :: string
  statusType :: statusKind
  isConnecting :: bool
  isConnected :: bool
  room :: "nat option"
  localAudioTrack :: "nat option"
  participants :: "string list"
  console :: "string list"
  trace :: "action list"
  rooms :: "roomInfo list"
  localTracks :: "localTrackInfo list"
  documentBody :: "audioElement list"

text \<open>
  The answers of the collaborators. \<open>clock n\<close> is what \<open>toLocaleTimeString\<close> gives at
  the \<open>n\<close>-th status update. A \<open>fetch\<close> rejects (\<open>Inl\<close>) or resolves with a response;
  \<open>connect\<close>, \<open>createLocalAudioTrack\<close>, \<open>publishTrack\<close>, \<open>disconnect\<close> and the \<open>stop\<close> of a
  local track complete (\<open>None\<close>) or throw. How the room service closes a room is not in
  the component: \<open>stopTracksOnDisconnect\<close> says whether it stops the local tracks
  published on the room, \<open>unsubscribeOnDisconnect\<close> whether it tells the room of the
  unsubscription of every remote track still subscribed.
\<close>

record env =
  clock :: "nat \<Rightarrow> string"
  initResult :: "thrown + httpResponse"
  tokenResult :: "thrown + httpResponse"
  connectResult :: "thrown option"
  micResult :: "thrown option"
  publishResult :: "thrown option"
  trackStopResult :: "thrown option"
  disconnectResult :: "thrown option"
  stopResult :: "thrown + httpResponse"
  stopTracksOnDisconnect :: bool
  unsubscribeOnDisconnect :: bool

definition initialState :: state where
  "initialState = \<lparr>
     status = ''Ready to start voice interview'',
     statusType = Info,
     isConnecting = False,
     isConnected = False,
     room = None,
     localAudioTrack = None,
     participants = [],
     console = [],
     trace = [],
     rooms = [],
     localTracks = [],
     documentBody = [] \<rparr>"

subsection \<open>Text\<close>

text \<open>Strings are UTF-8 bytes; the emoji of the status messages are written out.\<close>

definition checkMark :: string where
  "checkMark = [CHR 0xE2, CHR 0x9C, CHR 0x85]"

definition crossMark :: string where
  "crossMark = [CHR 0xE2, CHR 0x9D, CHR 0x8C]"

definition partyPopper :: string where
  "partyPopper = [CHR 0xF0, CHR 0x9F, CHR 0x8E, CHR 0x89]"

definition bustSilhouette :: string where
  "bustSilhouette = [CHR 0xF0, CHR 0x9F, CHR 0x91, CHR 0xA4]"

definition wavingHand :: string where
  "wavingHand = [CHR 0xF0, CHR 0x9F, CHR 0x91, CHR 0x8B]"

definition loudSpeaker :: string where
  "loudSpeaker = [CHR 0xF0, CHR 0x9F, CHR 0x94, CHR 0x8A]"

definition phoneOff :: string where
  "phoneOff = [CHR 0xF0, CHR 0x9F, CHR 0x93, CHR 0xB4]"

definition microphone :: string where
  "microphone = [CHR 0xF0, CHR 0x9F, CHR 0x8E, CHR 0xA4]"

definition digit :: "nat \<Rightarrow> char" where
  "digit d = ''0123456789'' ! d"

text \<open>A number in a template literal: its decimal digits.\<close>

fun showNat :: "nat \<Rightarrow> string" where
  "showNat n = (if n < 10 then [digit n] else showNat (n div 10) @ [digit (n mod 10)])"

declare showNat.simps [simp del]

subsection \<open>Requests\<close>

definition initRequest :: httpRequest where
  \<open>initRequest = \<lparr>
     reqMethod = ''POST'',
     reqUrl = apiUrl @ ''/start_livekit_interview/'',
     reqHeaders = [(''Content-Type'', ''application/json''), (''Organization'', organization)],
     reqBody = Some (''{"ref_num":"'' @ referenceNumber @ ''","custom_duration":30}'') \<rparr>\<close>

definition tokenRequest :: httpRequest where
  "tokenRequest = \<lparr>
     reqMethod = ''GET'',
     reqUrl = apiUrl @ ''/get_livekit_token/?ref_num='' @ referenceNumber
       @ ''&participant_name='' @ participantName @ ''&room_name='' @ roomName,
     reqHeaders = [(''Organization'', organization)],
     reqBody = None \<rparr>"

definition stopRequest :: httpRequest where
  \<open>stopRequest = \<lparr>
     reqMethod = ''POST'',
     reqUrl = apiUrl @ ''/stop_livekit_interview/'',
     reqHeaders = [(''Content-Type'', ''application/json''), (''Organization'', organization)],
     reqBody = Some (''{"ref_num":"'' @ referenceNumber @ ''"}'') \<rparr>\<close>

definition doFetch :: "httpRequest \<Rightarrow> state \<Rightarrow> state" where
  "doFetch rq s = s\<lparr>trace := trace s @ [Fetch rq]\<rparr>"

subsection \<open>\<open>updateStatus\<close>\<close>

definition updateStatus :: "env \<Rightarrow> string \<Rightarrow> statusKind \<Rightarrow> state \<Rightarrow> state" where
  "updateStatus e message type s =
     (let timestamp = clock e (length (console s));
          line = ''['' @ timestamp @ ''] '' @ message
      in s\<lparr>status := line, statusType := type, console := console s @ [line]\<rparr>)"

subsection \<open>\<open>getTokenFromBackend\<close>\<close>

text \<open>
  Two requests in sequence; a response that is not \<open>ok\<close> is thrown as an \<open>Error\<close> whose
  message holds the status and the body text. The \<open>catch\<close> of the source logs the error to
  the console and throws it again, so the result is the thrown value.
\<close>

definition getTokenFromBackend :: "env \<Rightarrow> state \<Rightarrow> (thrown + TokenResponse) \<times> state" where
  "getTokenFromBackend e s =
     (let s1 = updateStatus e ''Initializing interview backend...'' Info s;
          s2 = doFetch initRequest s1
      in case initResult e of
           Inl err \<Rightarrow> (Inl err, s2)
         | Inr initResponse \<Rightarrow>
             if \<not> ok initResponse
             then (Inl (ErrorObj (''Init failed: '' @ showNat (respStatus initResponse)
                      @ '' - '' @ respText initResponse)), s2)
             else
               let s3 = updateStatus e ''Getting access token...'' Info s2;
                   s4 = doFetch tokenRequest s3
               in (case tokenResult e of
                     Inl err \<Rightarrow> (Inl err, s4)
                   | Inr tokenResponse \<Rightarrow>
                       if \<not> ok tokenResponse
                       then (Inl (ErrorObj (''Token failed: '' @ showNat (respStatus tokenResponse)
                                @ '' - '' @ respText tokenResponse)), s4)
                       else (respJson tokenResponse, s4)))"

subsection \<open>The room service\<close>

text \<open>A change to room \<open>r\<close>; where there is no room \<open>r\<close> the list update changes nothing.\<close>

definition updRoom :: "nat \<Rightarrow> (roomInfo \<Rightarrow> roomInfo) \<Rightarrow> state \<Rightarrow> state" where
  "updRoom r f s = s\<lparr>rooms := (rooms s)[r := f (rooms s ! r)]\<rparr>"

definition hasListener :: "nat \<Rightarrow> RoomEvent \<Rightarrow> state \<Rightarrow> bool" where
  "hasListener r ev s = (r < length (rooms s) \<and> ev \<in> set (listeners (rooms s ! r)))"

definition isOpen :: "nat \<Rightarrow> state \<Rightarrow> bool" where
  "isOpen r s = (r < length (rooms s) \<and> connOpen (rooms s ! r))"

definition closureOf :: "nat \<Rightarrow> state \<Rightarrow> nat option" where
  "closureOf r s = (if r < length (rooms s) then closureRoom (rooms s ! r) else None)"

text \<open>\<open>new Room({adaptiveStream: true, dynacast: true})\<close>: the new room is the last one.\<close>

definition newRoom :: "nat option \<Rightarrow> state \<Rightarrow> state" where
  "newRoom cr s =
     s\<lparr>trace := trace s @ [NewRoom (length (rooms s)) True True],
       rooms := rooms s @ [\<lparr>adaptiveStream = True, dynacast = True, listeners = [],
                  closureRoom = cr, connOpen = False, published = [],
                  remoteIdentities = [], subscribed = []\<rparr>]\<rparr>"

definition roomOn :: "nat \<Rightarrow> RoomEvent \<Rightarrow> state \<Rightarrow> state" where
  "roomOn r ev s =
     updRoom r (\<lambda>i. i\<lparr>listeners := listeners i @ [ev]\<rparr>) (s\<lparr>trace := trace s @ [On r ev]\<rparr>)"

text \<open>The device of a local track is freed: by \<open>track.stop()\<close>, or by the room service.\<close>

definition endTrack :: "nat \<Rightarrow> state \<Rightarrow> state" where
  "endTrack t s = s\<lparr>localTracks := (localTracks s)[t := (localTracks s ! t)\<lparr>live := False\<rparr>]\<rparr>"

text \<open>\<open>track.stop()\<close>; a call that throws leaves the track as it was.\<close>

definition trackStop :: "env \<Rightarrow> nat \<Rightarrow> state \<Rightarrow> thrown option \<times> state" where
  "trackStop e t s =
     (let s1 = s\<lparr>trace := trace s @ [TrackStop t]\<rparr>
      in case trackStopResult e of
           Some err \<Rightarrow> (Some err, s1)
         | None \<Rightarrow> (None, endTrack t s1))"

subsection \<open>\<open>handleParticipantUpdate\<close> and \<open>enableMicrophone\<close>\<close>

text \<open>\<open>cr\<close> is the \<open>room\<close> the callback was memoised on.\<close>

definition handleParticipantUpdate :: "nat option \<Rightarrow> state \<Rightarrow> state" where
  "handleParticipantUpdate cr s =
     (case cr of
        None \<Rightarrow> s\<lparr>participants := []\<rparr>
      | Some r \<Rightarrow>
          if r < length (rooms s) then s\<lparr>participants := remoteIdentities (rooms s ! r)\<rparr>
          else s)"

definition micOptions :: captureOptions where
  "micOptions = \<lparr>echoCancellation = True, noiseSuppression = True, autoGainControl = True\<rparr>"

definition catchMicrophone :: "env \<Rightarrow> thrown \<Rightarrow> state \<Rightarrow> state" where
  "catchMicrophone e err s =
     updateStatus e (crossMark @ '' Microphone error: '' @ errorMessage err) Error s"

definition enableMicrophone :: "env \<Rightarrow> nat \<Rightarrow> state \<Rightarrow> state" where
  "enableMicrophone e r s =
     (let s1 = updateStatus e (microphone @ '' Enabling microphone...'') Info s;
          s2 = s1\<lparr>trace := trace s1 @ [CreateLocalAudioTrack micOptions]\<rparr>
      in case micResult e of
           Some err \<Rightarrow> catchMicrophone e err s2
         | None \<Rightarrow>
             let audioTrack = length (localTracks s2);
                 s3 = s2\<lparr>localTracks :=
                         localTracks s2 @ [\<lparr>captureOpts = micOptions, live = True\<rparr>]\<rparr>;
                 s4 = s3\<lparr>trace := trace s3 @ [PublishTrack r audioTrack]\<rparr>
             in (case publishResult e of
                   Some err \<Rightarrow> catchMicrophone e err s4
                 | None \<Rightarrow>
                     let s5 = updRoom r (\<lambda>i. i\<lparr>published := published i @ [audioTrack]\<rparr>) s4;
                         s6 = s5\<lparr>localAudioTrack := Some audioTrack\<rparr>
                     in updateStatus e (microphone @ checkMark
                          @ '' Microphone active! Speak to the AI interviewer. Agent should join shortly...'')
                          Success s6))"

subsection \<open>The handlers registered by \<open>startVoiceInterview\<close>\<close>

definition onConnected :: "env \<Rightarrow> nat option \<Rightarrow> nat \<Rightarrow> state \<Rightarrow> state" where
  "onConnected e cr newRoomId s =
     (let s1 = updateStatus e (partyPopper @ '' Connected to LiveKit! Setting up microphone...'')
                 Success s;
          s2 = s1\<lparr>isConnected := True, room := Some newRoomId\<rparr>;
          s3 = handleParticipantUpdate cr s2
      in enableMicrophone e newRoomId s3)"

definition onParticipantConnected :: "env \<Rightarrow> nat option \<Rightarrow> string \<Rightarrow> state \<Rightarrow> state" where
  "onParticipantConnected e cr identity s =
     handleParticipantUpdate cr
       (updateStatus e (bustSilhouette @ '' '' @ identity @ '' joined the interview'') Info s)"

definition onParticipantDisconnected :: "env \<Rightarrow> nat option \<Rightarrow> string \<Rightarrow> state \<Rightarrow> state" where
  "onParticipantDisconnected e cr identity s =
     handleParticipantUpdate cr
       (updateStatus e (wavingHand @ '' '' @ identity @ '' left the interview'') Info s)"

text \<open>
  \<open>track.attach()\<close> makes a new audio element playing the track; the handler sets
  \<open>autoplay\<close> and appends the element to the document body.
\<close>

definition onTrackSubscribed :: "env \<Rightarrow> remoteTrack \<Rightarrow> string \<Rightarrow> state \<Rightarrow> state" where
  "onTrackSubscribed e track identity s =
     (if kind track = Audio
      then
        let s1 = updateStatus e (loudSpeaker @ '' Now receiving audio from '' @ identity) Success s;
            s2 = s1\<lparr>trace := trace s1 @ [Attach (trackSid track)]\<rparr>;
            audioElement = \<lparr>autoplay = False, srcTrack = Some (trackSid track)\<rparr>;
            audioElement = audioElement\<lparr>autoplay := True\<rparr>
        in s2\<lparr>trace := trace s2 @ [AppendChild (length (documentBody s2))],
              documentBody := documentBody s2 @ [audioElement]\<rparr>
      else s)"

text \<open>
  \<open>track.detach()\<close> takes the track off every element it is attached to. The elements it
  returns are dropped by the handler; the document body is not touched.
\<close>

definition onTrackUnsubscribed :: "remoteTrack \<Rightarrow> state \<Rightarrow> state" where
  "onTrackUnsubscribed track s =
     s\<lparr>trace := trace s @ [Detach (trackSid track)],
       documentBody :=
         map (\<lambda>el. if srcTrack el = Some (trackSid track) then el\<lparr>srcTrack := None\<rparr> else el)
           (documentBody s)\<rparr>"

definition onDisconnected :: "env \<Rightarrow> state \<Rightarrow> state" where
  "onDisconnected e s =
     (let s1 = updateStatus e (phoneOff @ '' Disconnected from interview'') Info s
      in s1\<lparr>isConnected := False, room := None, localAudioTrack := None, participants := []\<rparr>)"

subsection \<open>Connecting and disconnecting\<close>

text \<open>
  \<open>room.connect(url, token)\<close>: when it resolves the room is open and the room service has
  emitted \<open>Connected\<close> to the listener registered for it, if there is one.
\<close>

definition roomConnect :: "env \<Rightarrow> nat \<Rightarrow> string \<Rightarrow> string \<Rightarrow> state \<Rightarrow> thrown option \<times> state" where
  "roomConnect e r url tok s =
     (let s1 = s\<lparr>trace := trace s @ [Connect r url tok]\<rparr>
      in case connectResult e of
           Some err \<Rightarrow> (Some err, s1)
         | None \<Rightarrow>
             let s2 = updRoom r (\<lambda>i. i\<lparr>connOpen := True\<rparr>) s1
             in (None, if hasListener r Connected s2
                       then onConnected e (closureOf r s2) r s2 else s2))"

text \<open>
  The room service tells room \<open>r\<close> that the remote tracks \<open>subs\<close> are unsubscribed: none
  is subscribed any more, and the \<open>TrackUnsubscribed\<close> listener is called for each.
\<close>

definition unsubscribeAll :: "nat \<Rightarrow> remoteTrack list \<Rightarrow> state \<Rightarrow> state" where
  "unsubscribeAll r subs s =
     (let s1 = updRoom r (\<lambda>i. i\<lparr>subscribed := []\<rparr>) s
      in if hasListener r TrackUnsubscribed s1 then fold onTrackUnsubscribed subs s1 else s1)"

text \<open>
  What the room service does when a room's connection ends, whoever ended it: the room is
  closed, its remote tracks are unsubscribed (under \<open>unsubscribeOnDisconnect\<close>), its local
  tracks are unpublished (and stopped, under \<open>stopTracksOnDisconnect\<close>), and
  \<open>Disconnected\<close> is emitted.
\<close>

definition closeRoom :: "env \<Rightarrow> nat \<Rightarrow> state \<Rightarrow> state" where
  "closeRoom e r s =
     (let pubs = (if r < length (rooms s) then published (rooms s ! r) else []);
          subs = (if r < length (rooms s) then subscribed (rooms s ! r) else []);
          s1 = updRoom r (\<lambda>i. i\<lparr>connOpen := False, published := []\<rparr>) s;
          s2 = (if unsubscribeOnDisconnect e then unsubscribeAll r subs s1 else s1);
          s3 = (if stopTracksOnDisconnect e then fold endTrack pubs s2 else s2)
      in if hasListener r Disconnected s3 then onDisconnected e s3 else s3)"

text \<open>
  \<open>room.disconnect()\<close>: when it resolves, an open room has been closed, and on a room that
  is not open it has done nothing. A call that rejects leaves the room as it was.
\<close>

definition roomDisconnect :: "env \<Rightarrow> nat \<Rightarrow> state \<Rightarrow> thrown option \<times> state" where
  "roomDisconnect e r s =
     (let s1 = s\<lparr>trace := trace s @ [Disconnect r]\<rparr>
      in case disconnectResult e of
           Some err \<Rightarrow> (Some err, s1)
         | None \<Rightarrow> (None, if isOpen r s1 then closeRoom e r s1 else s1))"

subsection \<open>\<open>startVoiceInterview\<close>\<close>

definition catchConnection :: "env \<Rightarrow> thrown \<Rightarrow> state \<Rightarrow> state" where
  "catchConnection e err s =
     updateStatus e (crossMark @ '' Connection failed: '' @ errorMessage err) Error s"

definition registerHandlers :: "nat \<Rightarrow> state \<Rightarrow> state" where
  "registerHandlers newRoomId s =
     (let s1 = roomOn newRoomId Connected s;
          s2 = roomOn newRoomId ParticipantConnected s1;
          s3 = roomOn newRoomId ParticipantDisconnected s2;
          s4 = roomOn newRoomId TrackSubscribed s3;
          s5 = roomOn newRoomId TrackUnsubscribed s4
      in roomOn newRoomId Disconnected s5)"

text \<open>The \<open>try\<close> block; \<open>cr\<close> is the \<open>room\<close> of the render the function belongs to.\<close>

definition startTry :: "env \<Rightarrow> nat option \<Rightarrow> state \<Rightarrow> state" where
  "startTry e cr s =
     (case getTokenFromBackend e s of
        (Inl err, s1) \<Rightarrow> catchConnection e err s1
      | (Inr tokenData, s1) \<Rightarrow>
          let s2 = updateStatus e (checkMark @ '' Token received, connecting to LiveKit...'')
                     Success s1;
              newRoomId = length (rooms s2);
              s3 = newRoom cr s2;
              s4 = registerHandlers newRoomId s3
          in (case roomConnect e newRoomId (livekit_url tokenData) (token tokenData) s4 of
                (None, s5) \<Rightarrow> s5
              | (Some err, s5) \<Rightarrow> catchConnection e err s5))"

text \<open>The state after the guard, while the \<open>try\<close> block runs.\<close>

definition beginStart :: "env \<Rightarrow> state \<Rightarrow> state" where
  "beginStart e s = updateStatus e ''Starting voice interview...'' Info (s\<lparr>isConnecting := True\<rparr>)"

definition startVoiceInterview :: "env \<Rightarrow> state \<Rightarrow> state" where
  "startVoiceInterview e s =
     (if isConnecting s \<or> isConnected s then s
      else (startTry e (room s) (beginStart e s))\<lparr>isConnecting := False\<rparr>)"

subsection \<open>\<open>stopVoiceInterview\<close>\<close>

text \<open>
  The three statements of the \<open>try\<close> block, each giving what it throws, if it does.
  \<open>localAudioTrack\<close> and \<open>room\<close> are read from the render the function belongs to, the
  state it is called in. The response of the teardown request is not looked at.
\<close>

definition releaseTrack :: "env \<Rightarrow> nat option \<Rightarrow> state \<Rightarrow> thrown option \<times> state" where
  "releaseTrack e localAudioTrack' s =
     (case localAudioTrack' of
        None \<Rightarrow> (None, s)
      | Some t \<Rightarrow>
          (case trackStop e t s of
             (None, s1) \<Rightarrow> (None, s1\<lparr>localAudioTrack := None\<rparr>)
           | (Some err, s1) \<Rightarrow> (Some err, s1)))"

definition releaseRoom :: "env \<Rightarrow> nat option \<Rightarrow> state \<Rightarrow> thrown option \<times> state" where
  "releaseRoom e room' s =
     (case room' of
        None \<Rightarrow> (None, s)
      | Some r \<Rightarrow> roomDisconnect e r s)"

definition notifyBackend :: "env \<Rightarrow> state \<Rightarrow> thrown option \<times> state" where
  "notifyBackend e s =
     (let s1 = doFetch stopRequest s
      in case stopResult e of
           Inl err \<Rightarrow> (Some err, s1)
         | Inr response \<Rightarrow>
             (None, updateStatus e (checkMark @ '' Interview stopped successfully'') Success s1))"

text \<open>The \<open>try\<close> block: the first statement that throws ends it.\<close>

definition stopTry :: "env \<Rightarrow> state \<Rightarrow> state \<Rightarrow> thrown option \<times> state" where
  "stopTry e s s1 =
     (case releaseTrack e (localAudioTrack s) s1 of
        (Some err, s2) \<Rightarrow> (Some err, s2)
      | (None, s2) \<Rightarrow>
          (case releaseRoom e (room s) s2 of
             (Some err, s3) \<Rightarrow> (Some err, s3)
           | (None, s3) \<Rightarrow> notifyBackend e s3))"

definition stopVoiceInterview :: "env \<Rightarrow> state \<Rightarrow> state" where
  "stopVoiceInterview e s =
     (case stopTry e s (updateStatus e ''Stopping interview...'' Info s) of
        (None, s1) \<Rightarrow> s1
      | (Some err, s1) \<Rightarrow>
          updateStatus e (crossMark @ '' Stop error: '' @ errorMessage err) Error s1)"

subsection \<open>Events of the room service\<close>

text \<open>
  What the room service tells an open room: a participant joined or left, a remote track
  was subscribed, a subscribed track was unsubscribed, or the connection ended from the
  other side. The room is brought up to date first; then the event reaches the handler
  registered for it.
\<close>

datatype serviceEvent =
    ParticipantJoined string
  | ParticipantLeft string
  | TrackSub remoteTrack string
  | TrackUnsub remoteTrack
  | ServerDisconnect

fun roomServiceEvent :: "env \<Rightarrow> nat \<Rightarrow> serviceEvent \<Rightarrow> state \<Rightarrow> state" where
  "roomServiceEvent e r (ParticipantJoined identity) s =
     (if isOpen r s
      then let s1 = updRoom r (\<lambda>i. i\<lparr>remoteIdentities := remoteIdentities i @ [identity]\<rparr>) s
           in if hasListener r ParticipantConnected s1
              then onParticipantConnected e (closureOf r s1) identity s1 else s1
      else s)"
| "roomServiceEvent e r (ParticipantLeft identity) s =
     (if isOpen r s
      then let s1 = updRoom r (\<lambda>i. i\<lparr>remoteIdentities := removeAll identity (remoteIdentities i)\<rparr>) s
           in if hasListener r ParticipantDisconnected s1
              then onParticipantDisconnected e (closureOf r s1) identity s1 else s1
      else s)"
| "roomServiceEvent e r (TrackSub track identity) s =
     (if isOpen r s
      then let s1 = updRoom r (\<lambda>i. i\<lparr>subscribed := subscribed i @ [track]\<rparr>) s
           in if hasListener r TrackSubscribed s1
              then onTrackSubscribed e track identity s1 else s1
      else s)"
| "roomServiceEvent e r (TrackUnsub track) s =
     (if isOpen r s \<and> track \<in> set (subscribed (rooms s ! r))
      then let s1 = updRoom r (\<lambda>i. i\<lparr>subscribed := remove1 track (subscribed i)\<rparr>) s
           in if hasListener r TrackUnsubscribed s1
              then onTrackUnsubscribed track s1 else s1
      else s)"
| "roomServiceEvent e r ServerDisconnect s =
     (if isOpen r s then closeRoom e r s else s)"

subsection \<open>What is observed\<close>

text \<open>A local media device is captured: some local track is live.\<close>

definition deviceCaptured :: "state \<Rightarrow> bool" where
  "deviceCaptured s = list_ex live (localTracks s)"

text \<open>A transport connection is open.\<close>

definition connectionOpen :: "state \<Rightarrow> bool" where
  "connectionOpen s = list_ex connOpen (rooms s)"

text \<open>
  The component has no state named Failed. The session has failed when it is neither
  connecting nor connected and the status shown is an error.
\<close>

definition isFailed :: "state \<Rightarrow> bool" where
  "isFailed s = (\<not> isConnecting s \<and> \<not> isConnected s \<and> statusType s = Error)"

fun isConnect :: "action \<Rightarrow> bool" where
  "isConnect (Connect r url tok) = True"
| "isConnect a = False"

fun isCreateTrack :: "action \<Rightarrow> bool" where
  "isCreateTrack (CreateLocalAudioTrack opts) = True"
| "isCreateTrack a = False"

fun isAttach :: "action \<Rightarrow> bool" where
  "isAttach (Attach sid) = True"
| "isAttach a = False"

fun isDetach :: "action \<Rightarrow> bool" where
  "isDetach (Detach sid) = True"
| "isDetach a = False"

definition connectAttempts :: "state \<Rightarrow> action list" where
  "connectAttempts s = filter isConnect (trace s)"

definition credentialRequests :: "state \<Rightarrow> action list" where
  "credentialRequests s = filter (\<lambda>a. a = Fetch tokenRequest) (trace s)"

definition requestsSent :: "state \<Rightarrow> httpRequest list" where
  "requestsSent s = concat (map (\<lambda>a. case a of Fetch rq \<Rightarrow> [rq] | _ \<Rightarrow> []) (trace s))"

fun isOn :: "action \<Rightarrow> bool" where
  "isOn (On r ev) = True"
| "isOn a = False"

text \<open>The calls made between two states.\<close>

definition newActions :: "state \<Rightarrow> state \<Rightarrow> action list" where
  "newActions s s' = drop (length (trace s)) (trace s')"

definition allRoomEvents :: "RoomEvent list" where
  "allRoomEvents = [Connected, ParticipantConnected, ParticipantDisconnected,
                    TrackSubscribed, TrackUnsubscribed, Disconnected]"

text \<open>
  In a sequence of calls, every \<open>connect\<close> on a room comes after the registration of a
  listener for each of the six events on that room.
\<close>

fun listenersReady :: "(nat \<times> RoomEvent) list \<Rightarrow> action list \<Rightarrow> bool" where
  "listenersReady seen [] = True"
| "listenersReady seen (On r ev # as) = listenersReady ((r, ev) # seen) as"
| "listenersReady seen (Connect r url tok # as) =
     (list_all (\<lambda>ev. (r, ev) \<in> set seen) allRoomEvents \<and> listenersReady seen as)"
| "listenersReady seen (a # as) = listenersReady seen as"

subsection \<open>Names for the stages of \<open>startVoiceInterview\<close> and \<open>stopVoiceInterview\<close>\<close>

text \<open>The calls of \<open>enableMicrophone\<close> on room \<open>r\<close>, where \<open>t\<close> is the next local track.\<close>

definition micActions :: "env \<Rightarrow> nat \<Rightarrow> nat \<Rightarrow> action list" where
  "micActions e r t = CreateLocalAudioTrack micOptions #
     (case micResult e of Some err \<Rightarrow> [] | None \<Rightarrow> [PublishTrack r t])"

definition micTracks :: "env \<Rightarrow> localTrackInfo list" where
  "micTracks e = (case micResult e of Some err \<Rightarrow> []
                  | None \<Rightarrow> [\<lparr>captureOpts = micOptions, live = True\<rparr>])"

text \<open>The new room once its handlers are registered, and the calls that made it.\<close>

definition readyRoom :: "nat option \<Rightarrow> roomInfo" where
  "readyRoom cr = \<lparr>adaptiveStream = True, dynacast = True, listeners = allRoomEvents,
     closureRoom = cr, connOpen = False, published = [], remoteIdentities = [],
     subscribed = []\<rparr>"

definition setupActions :: "nat \<Rightarrow> action list" where
  "setupActions r = [NewRoom r True True, On r Connected, On r ParticipantConnected,
     On r ParticipantDisconnected, On r TrackSubscribed, On r TrackUnsubscribed,
     On r Disconnected]"

text \<open>The state after both requests of \<open>getTokenFromBackend\<close>.\<close>

definition afterToken :: "env \<Rightarrow> state \<Rightarrow> state" where
  "afterToken e s =
     doFetch tokenRequest (updateStatus e ''Getting access token...'' Info
       (doFetch initRequest (updateStatus e ''Initializing interview backend...'' Info s)))"

text \<open>The state when \<open>connect\<close> has been called, the room open or not.\<close>

definition atConnect :: "env \<Rightarrow> nat option \<Rightarrow> string \<Rightarrow> string \<Rightarrow> bool \<Rightarrow> state \<Rightarrow> state" where
  "atConnect e cr url tok opened s =
     (updateStatus e (checkMark @ '' Token received, connecting to LiveKit...'') Success
        (afterToken e s))
       \<lparr>trace := trace s @ [Fetch initRequest, Fetch tokenRequest]
                   @ setupActions (length (rooms s)) @ [Connect (length (rooms s)) url tok],
        rooms := rooms s @ [(readyRoom cr)\<lparr>connOpen := opened\<rparr>]\<rparr>"

text \<open>The calls made while room \<open>r\<close> closes: one \<open>detach\<close> for each track unsubscribed.\<close>

definition closeActions :: "env \<Rightarrow> nat \<Rightarrow> state \<Rightarrow> action list" where
  "closeActions e r s =
     (if unsubscribeOnDisconnect e \<and> hasListener r TrackUnsubscribed s
      then map (\<lambda>track. Detach (trackSid track)) (subscribed (rooms s ! r)) else [])"

text \<open>
  The calls of the local cleanup of \<open>stopVoiceInterview\<close>, before the teardown request,
  and whether the cleanup completes (no statement of it throws).
\<close>

definition cleanupActions :: "env \<Rightarrow> state \<Rightarrow> action list" where
  "cleanupActions e s =
     (case localAudioTrack s of None \<Rightarrow> [] | Some t \<Rightarrow> [TrackStop t])
     @ (if localAudioTrack s = None \<or> trackStopResult e = None
        then (case room s of
                None \<Rightarrow> []
              | Some r \<Rightarrow> Disconnect r #
                  (if disconnectResult e = None \<and> isOpen r s then closeActions e r s else []))
        else [])"

definition cleanupCompletes :: "env \<Rightarrow> state \<Rightarrow> bool" where
  "cleanupCompletes e s =
     ((localAudioTrack s = None \<or> trackStopResult e = None)
      \<and> (room s = None \<or> disconnectResult e = None))"

subsection \<open>Counting attaches and detaches\<close>

definition attachCount :: "state \<Rightarrow> nat" where
  "attachCount s = length (filter isAttach (trace s))"

definition detachCount :: "state \<Rightarrow> nat" where
  "detachCount s = length (filter isDetach (trace s))"

text \<open>The number of remote tracks subscribed, over all rooms.\<close>

definition pending :: "state \<Rightarrow> nat" where
  "pending s = sum_list (map (\<lambda>i. length (subscribed i)) (rooms s))"

text \<open>A room with the two track listeners registered.\<close>

definition wired :: "roomInfo \<Rightarrow> bool" where
  "wired i = (TrackSubscribed \<in> set (listeners i) \<and> TrackUnsubscribed \<in> set (listeners i))"

text \<open>
  Every attach is matched by a detach, but for the tracks still subscribed; the document
  body holds one element for each attach; and every room has the two track listeners.
\<close>

definition matched :: "state \<Rightarrow> bool" where
  "matched s =
     (attachCount s = detachCount s + pending s
      \<and> length (documentBody s) = attachCount s
      \<and> list_all wired (rooms s))"

text \<open>A room that is not open has no track subscribed.\<close>

definition closedRoomsClear :: "state \<Rightarrow> bool" where
  "closedRoomsClear s = list_all (\<lambda>i. connOpen i \<or> subscribed i = []) (rooms s)"

text \<open>An event that brings no track of another kind than audio.\<close>

fun audioOnly :: "serviceEvent \<Rightarrow> bool" where
  "audioOnly (TrackSub track identity) = (kind track = Audio)"
| "audioOnly ev = True"

subsection \<open>Scenarios\<close>

text \<open>
  The scenario of the specification: both requests answer 200, the credential is
  \<open>tokenData\<close>, the connection opens, the microphone is granted and published. Nothing
  throws at teardown, and the room service closes a room with its default options.
\<close>

definition tokenData :: TokenResponse where
  "tokenData = \<lparr>success = True, token = ''abc'', livekit_url = ''wss://x'',
     room_name = ''interview_NORMALIZED_TEST_001'', participant_name = ''candidate_prajwal''\<rparr>"

definition response :: "nat \<Rightarrow> string \<Rightarrow> httpResponse" where
  "response n body = \<lparr>respStatus = n, respText = body,
     respJson = Inl (ErrorObj ''Unexpected end of JSON input'')\<rparr>"

definition okResponse :: httpResponse where
  "okResponse = response 200 ''{}''"

definition tokenOkResponse :: httpResponse where
  "tokenOkResponse = okResponse\<lparr>respJson := Inr tokenData\<rparr>"

definition serverError :: httpResponse where
  "serverError = response 500 ''server error''"

definition scenarioEnv :: env where
  "scenarioEnv = \<lparr>clock = (\<lambda>n. ''10:00:00 AM''),
     initResult = Inr okResponse,
     tokenResult = Inr tokenOkResponse,
     connectResult = None, micResult = None, publishResult = None,
     trackStopResult = None, disconnectResult = None,
     stopResult = Inr okResponse,
     stopTracksOnDisconnect = True, unsubscribeOnDisconnect = True\<rparr>"

definition credentialErrorEnv :: env where
  "credentialErrorEnv = scenarioEnv\<lparr>tokenResult := Inr serverError\<rparr>"

definition micDeniedEnv :: env where
  "micDeniedEnv = scenarioEnv\<lparr>micResult := Some (ErrorObj ''Permission denied'')\<rparr>"

definition publishFailEnv :: env where
  "publishFailEnv = scenarioEnv\<lparr>publishResult := Some (ErrorObj ''publish failed'')\<rparr>"

definition keepTracksEnv :: env where
  "keepTracksEnv = scenarioEnv\<lparr>stopTracksOnDisconnect := False\<rparr>"

definition teardownErrorEnv :: env where
  "teardownErrorEnv = scenarioEnv\<lparr>stopResult := Inr serverError\<rparr>"

definition teardownDownEnv :: env where
  "teardownDownEnv = scenarioEnv\<lparr>stopResult := Inl (ErrorObj ''Failed to fetch'')\<rparr>"

definition disconnectRejectEnv :: env where
  "disconnectRejectEnv = scenarioEnv\<lparr>disconnectResult := Some (ErrorObj ''could not disconnect'')\<rparr>"

definition agentTrack :: remoteTrack where
  "agentTrack = \<lparr>trackSid = ''TR_agent'', kind = Audio\<rparr>"

definition cameraTrack :: remoteTrack where
  "cameraTrack = \<lparr>trackSid = ''TR_camera'', kind = Video\<rparr>"

text \<open>
  The connected session of the scenario; then the agent's audio track is subscribed, and
  then unsubscribed. In another run a video track is subscribed and unsubscribed.
\<close>

definition connectedSession :: state where
  "connectedSession = startVoiceInterview scenarioEnv initialState"

definition heardSession :: state where
  "heardSession = roomServiceEvent scenarioEnv 0 (TrackSub agentTrack ''agent'') connectedSession"

definition silentSession :: state where
  "silentSession = roomServiceEvent scenarioEnv 0 (TrackUnsub agentTrack) heardSession"

definition watchedSession :: state where
  "watchedSession = roomServiceEvent scenarioEnv 0 (TrackUnsub cameraTrack)
     (roomServiceEvent scenarioEnv 0 (TrackSub cameraTrack ''agent'') connectedSession)"

section \<open>How each function changes the state\<close>

lemma updateStatus_frame [simp]:
  "trace (updateStatus e m t s) = trace s"
  "rooms (updateStatus e m t s) = rooms s"
  "localTracks (updateStatus e m t s) = localTracks s"
  "documentBody (updateStatus e m t s) = documentBody s"
  "isConnecting (updateStatus e m t s) = isConnecting s"
  "isConnected (updateStatus e m t s) = isConnected s"
  "room (updateStatus e m t s) = room s"
  "localAudioTrack (updateStatus e m t s) = localAudioTrack s"
  "participants (updateStatus e m t s) = participants s"
  by (simp_all add: updateStatus_def Let_def)

lemma updateStatus_status [simp]:
  "statusType (updateStatus e m t s) = t"
  "status (updateStatus e m t s) = ''['' @ clock e (length (console s)) @ ''] '' @ m"
  "length (console (updateStatus e m t s)) = Suc (length (console s))"
  by (simp_all add: updateStatus_def Let_def)

lemma doFetch_frame [simp]:
  "trace (doFetch rq s) = trace s @ [Fetch rq]"
  "rooms (doFetch rq s) = rooms s"
  "localTracks (doFetch rq s) = localTracks s"
  "documentBody (doFetch rq s) = documentBody s"
  "isConnecting (doFetch rq s) = isConnecting s"
  "isConnected (doFetch rq s) = isConnected s"
  "room (doFetch rq s) = room s"
  "localAudioTrack (doFetch rq s) = localAudioTrack s"
  "participants (doFetch rq s) = participants s"
  "statusType (doFetch rq s) = statusType s"
  "status (doFetch rq s) = status s"
  "console (doFetch rq s) = console s"
  by (simp_all add: doFetch_def)

lemma handleParticipantUpdate_frame [simp]:
  "trace (handleParticipantUpdate cr s) = trace s"
  "rooms (handleParticipantUpdate cr s) = rooms s"
  "localTracks (handleParticipantUpdate cr s) = localTracks s"
  "documentBody (handleParticipantUpdate cr s) = documentBody s"
  "isConnecting (handleParticipantUpdate cr s) = isConnecting s"
  "isConnected (handleParticipantUpdate cr s) = isConnected s"
  "room (handleParticipantUpdate cr s) = room s"
  "localAudioTrack (handleParticipantUpdate cr s) = localAudioTrack s"
  "statusType (handleParticipantUpdate cr s) = statusType s"
  "status (handleParticipantUpdate cr s) = status s"
  "console (handleParticipantUpdate cr s) = console s"
  by (simp_all add: handleParticipantUpdate_def split: option.splits)

lemma catch_frame [simp]:
  "trace (catchMicrophone e err s) = trace s"
  "rooms (catchMicrophone e err s) = rooms s"
  "localTracks (catchMicrophone e err s) = localTracks s"
  "documentBody (catchMicrophone e err s) = documentBody s"
  "isConnecting (catchMicrophone e err s) = isConnecting s"
  "isConnected (catchMicrophone e err s) = isConnected s"
  "room (catchMicrophone e err s) = room s"
  "localAudioTrack (catchMicrophone e err s) = localAudioTrack s"
  "statusType (catchMicrophone e err s) = Error"
  "length (console (catchMicrophone e err s)) = Suc (length (console s))"
  "trace (catchConnection e err s) = trace s"
  "rooms (catchConnection e err s) = rooms s"
  "localTracks (catchConnection e err s) = localTracks s"
  "documentBody (catchConnection e err s) = documentBody s"
  "isConnecting (catchConnection e err s) = isConnecting s"
  "isConnected (catchConnection e err s) = isConnected s"
  "room (catchConnection e err s) = room s"
  "localAudioTrack (catchConnection e err s) = localAudioTrack s"
  "statusType (catchConnection e err s) = Error"
  "length (console (catchConnection e err s)) = Suc (length (console s))"
  by (simp_all add: catchMicrophone_def catchConnection_def)

lemma catch_status [simp]:
  "status (catchMicrophone e err s) =
     ''['' @ clock e (length (console s)) @ ''] '' @ crossMark @ '' Microphone error: '' @ errorMessage err"
  "status (catchConnection e err s) =
     ''['' @ clock e (length (console s)) @ ''] '' @ crossMark @ '' Connection failed: '' @ errorMessage err"
  by (simp_all add: catchMicrophone_def catchConnection_def)

lemma enableMicrophone_frame [simp]:
  "documentBody (enableMicrophone e r s) = documentBody s"
  "isConnecting (enableMicrophone e r s) = isConnecting s"
  "isConnected (enableMicrophone e r s) = isConnected s"
  "room (enableMicrophone e r s) = room s"
  "length (console (enableMicrophone e r s)) = Suc (Suc (length (console s)))"
  by (simp_all add: enableMicrophone_def updRoom_def Let_def split: option.splits)

lemma enableMicrophone_trace:
  "trace (enableMicrophone e r s) = trace s @ micActions e r (length (localTracks s))"
  by (simp add: enableMicrophone_def updRoom_def Let_def micActions_def split: option.splits)

lemma enableMicrophone_localTracks:
  "localTracks (enableMicrophone e r s) = localTracks s @ micTracks e"
  by (simp add: enableMicrophone_def updRoom_def Let_def micTracks_def split: option.splits)

lemma enableMicrophone_micFail:
  assumes "micResult e = Some err"
  shows "rooms (enableMicrophone e r s) = rooms s"
    and "localAudioTrack (enableMicrophone e r s) = localAudioTrack s"
    and "statusType (enableMicrophone e r s) = Error"
    and "status (enableMicrophone e r s) =
       ''['' @ clock e (Suc (length (console s))) @ ''] '' @ crossMark @ '' Microphone error: '' @ errorMessage err"
  using assms by (simp_all add: enableMicrophone_def Let_def)

lemma enableMicrophone_publishFail:
  assumes "micResult e = None" "publishResult e = Some err"
  shows "rooms (enableMicrophone e r s) = rooms s"
    and "localAudioTrack (enableMicrophone e r s) = localAudioTrack s"
    and "statusType (enableMicrophone e r s) = Error"
    and "status (enableMicrophone e r s) =
       ''['' @ clock e (Suc (length (console s))) @ ''] '' @ crossMark @ '' Microphone error: '' @ errorMessage err"
  using assms by (simp_all add: enableMicrophone_def Let_def)

lemma enableMicrophone_ok:
  assumes "micResult e = None" "publishResult e = None"
  shows "rooms (enableMicrophone e r s) =
           (rooms s)[r := (rooms s ! r)\<lparr>published := published (rooms s ! r) @ [length (localTracks s)]\<rparr>]"
    and "localAudioTrack (enableMicrophone e r s) = Some (length (localTracks s))"
    and "statusType (enableMicrophone e r s) = Success"
  using assms by (simp_all add: enableMicrophone_def updRoom_def Let_def)

lemma onConnected_frame [simp]:
  "isConnected (onConnected e cr r s) = True"
  "room (onConnected e cr r s) = Some r"
  "isConnecting (onConnected e cr r s) = isConnecting s"
  "documentBody (onConnected e cr r s) = documentBody s"
  "length (console (onConnected e cr r s)) = Suc (Suc (Suc (length (console s))))"
  "trace (onConnected e cr r s) = trace s @ micActions e r (length (localTracks s))"
  "localTracks (onConnected e cr r s) = localTracks s @ micTracks e"
  by (simp_all add: onConnected_def Let_def enableMicrophone_trace enableMicrophone_localTracks)

lemma onConnected_micFail:
  assumes "micResult e = Some err"
  shows "rooms (onConnected e cr r s) = rooms s"
    and "localAudioTrack (onConnected e cr r s) = localAudioTrack s"
    and "statusType (onConnected e cr r s) = Error"
    and "status (onConnected e cr r s) =
       ''['' @ clock e (Suc (Suc (length (console s)))) @ ''] '' @ crossMark @ '' Microphone error: '' @ errorMessage err"
  using assms by (simp_all add: onConnected_def Let_def enableMicrophone_micFail)

lemma onConnected_publishFail:
  assumes "micResult e = None" "publishResult e = Some err"
  shows "rooms (onConnected e cr r s) = rooms s"
    and "localAudioTrack (onConnected e cr r s) = localAudioTrack s"
    and "statusType (onConnected e cr r s) = Error"
  using assms by (simp_all add: onConnected_def Let_def enableMicrophone_publishFail)

lemma onConnected_ok:
  assumes "micResult e = None" "publishResult e = None"
  shows "rooms (onConnected e cr r s) =
           (rooms s)[r := (rooms s ! r)\<lparr>published := published (rooms s ! r) @ [length (localTracks s)]\<rparr>]"
    and "localAudioTrack (onConnected e cr r s) = Some (length (localTracks s))"
    and "statusType (onConnected e cr r s) = Success"
  using assms by (simp_all add: onConnected_def Let_def enableMicrophone_ok)

text \<open>The state in which \<open>connect\<close> is called: a new room with its six listeners.\<close>

lemma registerHandlers_newRoom:
  "registerHandlers (length (rooms s)) (newRoom cr s) =
     s\<lparr>trace := trace s @ [NewRoom (length (rooms s)) True True,
          On (length (rooms s)) Connected, On (length (rooms s)) ParticipantConnected,
          On (length (rooms s)) ParticipantDisconnected, On (length (rooms s)) TrackSubscribed,
          On (length (rooms s)) TrackUnsubscribed, On (length (rooms s)) Disconnected],
        rooms := rooms s @ [readyRoom cr]\<rparr>"
  by (simp add: registerHandlers_def newRoom_def roomOn_def updRoom_def allRoomEvents_def
      readyRoom_def)

lemma roomConnect_fresh_fst:
  "fst (roomConnect e (length (rooms s)) url tok (registerHandlers (length (rooms s)) (newRoom cr s)))
     = connectResult e"
  by (simp add: roomConnect_def Let_def split: option.splits)

lemma roomConnect_fresh_fail:
  assumes "connectResult e = Some err"
  shows "snd (roomConnect e (length (rooms s)) url tok (registerHandlers (length (rooms s)) (newRoom cr s)))
     = s\<lparr>trace := trace s @ setupActions (length (rooms s)) @ [Connect (length (rooms s)) url tok],
          rooms := rooms s @ [readyRoom cr]\<rparr>"
  using assms
  by (simp add: roomConnect_def registerHandlers_newRoom Let_def setupActions_def readyRoom_def)

lemma roomConnect_fresh_ok:
  assumes "connectResult e = None"
  shows "snd (roomConnect e (length (rooms s)) url tok (registerHandlers (length (rooms s)) (newRoom cr s)))
     = onConnected e cr (length (rooms s))
        (s\<lparr>trace := trace s @ setupActions (length (rooms s)) @ [Connect (length (rooms s)) url tok],
           rooms := rooms s @ [(readyRoom cr)\<lparr>connOpen := True\<rparr>]\<rparr>)"
  using assms
  by (simp add: roomConnect_def registerHandlers_newRoom Let_def setupActions_def readyRoom_def
      updRoom_def hasListener_def closureOf_def allRoomEvents_def)

lemma getToken_ok:
  assumes "initResult e = Inr ri" "ok ri" "tokenResult e = Inr rt" "ok rt"
  shows "getTokenFromBackend e s = (respJson rt, afterToken e s)"
  using assms by (simp add: getTokenFromBackend_def afterToken_def)

lemma getToken_token_failed:
  assumes "initResult e = Inr ri" "ok ri" "tokenResult e = Inr rt" "\<not> ok rt"
  shows "getTokenFromBackend e s =
     (Inl (ErrorObj (''Token failed: '' @ showNat (respStatus rt) @ '' - '' @ respText rt)),
      afterToken e s)"
  using assms by (simp add: getTokenFromBackend_def afterToken_def)

lemma afterToken_frame [simp]:
  "trace (afterToken e s) = trace s @ [Fetch initRequest, Fetch tokenRequest]"
  "rooms (afterToken e s) = rooms s"
  "localTracks (afterToken e s) = localTracks s"
  "documentBody (afterToken e s) = documentBody s"
  "isConnecting (afterToken e s) = isConnecting s"
  "isConnected (afterToken e s) = isConnected s"
  "room (afterToken e s) = room s"
  "localAudioTrack (afterToken e s) = localAudioTrack s"
  "length (console (afterToken e s)) = Suc (Suc (length (console s)))"
  by (simp_all add: afterToken_def)

lemma atConnect_frame [simp]:
  "trace (atConnect e cr url tok b s) = trace s @ [Fetch initRequest, Fetch tokenRequest]
      @ setupActions (length (rooms s)) @ [Connect (length (rooms s)) url tok]"
  "rooms (atConnect e cr url tok b s) = rooms s @ [(readyRoom cr)\<lparr>connOpen := b\<rparr>]"
  "localTracks (atConnect e cr url tok b s) = localTracks s"
  "documentBody (atConnect e cr url tok b s) = documentBody s"
  "isConnecting (atConnect e cr url tok b s) = isConnecting s"
  "isConnected (atConnect e cr url tok b s) = isConnected s"
  "room (atConnect e cr url tok b s) = room s"
  "localAudioTrack (atConnect e cr url tok b s) = localAudioTrack s"
  "length (console (atConnect e cr url tok b s)) = Suc (Suc (Suc (length (console s))))"
  "statusType (atConnect e cr url tok b s) = Success"
  by (simp_all add: atConnect_def)

lemma startTry_token_failed:
  assumes "initResult e = Inr ri" "ok ri" "tokenResult e = Inr rt" "\<not> ok rt"
  shows "startTry e cr s = catchConnection e
     (ErrorObj (''Token failed: '' @ showNat (respStatus rt) @ '' - '' @ respText rt)) (afterToken e s)"
  using assms by (simp add: startTry_def getToken_token_failed)

lemma startTry_connect_ok:
  assumes "initResult e = Inr ri" "ok ri" "tokenResult e = Inr rt" "ok rt" "respJson rt = Inr td"
    "connectResult e = None"
  shows "startTry e cr s =
     onConnected e cr (length (rooms s)) (atConnect e cr (livekit_url td) (token td) True s)"
proof -
  let ?s2 = "updateStatus e (checkMark @ '' Token received, connecting to LiveKit...'') Success
               (afterToken e s)"
  let ?c = "roomConnect e (length (rooms ?s2)) (livekit_url td) (token td)
              (registerHandlers (length (rooms ?s2)) (newRoom cr ?s2))"
  have "fst ?c = None"
    using assms(6) by (simp only: roomConnect_fresh_fst)
  moreover have "snd ?c = onConnected e cr (length (rooms ?s2))
        (?s2\<lparr>trace := trace ?s2 @ setupActions (length (rooms ?s2))
                   @ [Connect (length (rooms ?s2)) (livekit_url td) (token td)],
           rooms := rooms ?s2 @ [(readyRoom cr)\<lparr>connOpen := True\<rparr>]\<rparr>)"
    using assms(6) by (rule roomConnect_fresh_ok)
  ultimately have "startTry e cr s = onConnected e cr (length (rooms ?s2))
        (?s2\<lparr>trace := trace ?s2 @ setupActions (length (rooms ?s2))
                   @ [Connect (length (rooms ?s2)) (livekit_url td) (token td)],
           rooms := rooms ?s2 @ [(readyRoom cr)\<lparr>connOpen := True\<rparr>]\<rparr>)"
    using assms(1-5) by (simp add: startTry_def getToken_ok Let_def case_prod_beta)
  then show ?thesis
    by (simp add: atConnect_def)
qed

lemma startTry_connect_failed:
  assumes "initResult e = Inr ri" "ok ri" "tokenResult e = Inr rt" "ok rt" "respJson rt = Inr td"
    "connectResult e = Some err"
  shows "startTry e cr s =
     catchConnection e err (atConnect e cr (livekit_url td) (token td) False s)"
proof -
  let ?s2 = "updateStatus e (checkMark @ '' Token received, connecting to LiveKit...'') Success
               (afterToken e s)"
  let ?c = "roomConnect e (length (rooms ?s2)) (livekit_url td) (token td)
              (registerHandlers (length (rooms ?s2)) (newRoom cr ?s2))"
  have "fst ?c = Some err"
    using assms(6) by (simp only: roomConnect_fresh_fst)
  moreover have "snd ?c = ?s2\<lparr>trace := trace ?s2 @ setupActions (length (rooms ?s2))
                   @ [Connect (length (rooms ?s2)) (livekit_url td) (token td)],
           rooms := rooms ?s2 @ [readyRoom cr]\<rparr>"
    using assms(6) by (rule roomConnect_fresh_fail)
  ultimately have "startTry e cr s = catchConnection e err
        (?s2\<lparr>trace := trace ?s2 @ setupActions (length (rooms ?s2))
                   @ [Connect (length (rooms ?s2)) (livekit_url td) (token td)],
           rooms := rooms ?s2 @ [readyRoom cr]\<rparr>)"
    using assms(1-5) by (simp add: startTry_def getToken_ok Let_def case_prod_beta)
  then show ?thesis
    by (simp add: atConnect_def readyRoom_def)
qed

lemma start_idle:
  assumes "\<not> isConnecting s" "\<not> isConnected s"
  shows "startVoiceInterview e s = (startTry e (room s) (beginStart e s))\<lparr>isConnecting := False\<rparr>"
  using assms by (simp add: startVoiceInterview_def)

lemma beginStart_frame [simp]:
  "trace (beginStart e s) = trace s"
  "rooms (beginStart e s) = rooms s"
  "localTracks (beginStart e s) = localTracks s"
  "documentBody (beginStart e s) = documentBody s"
  "isConnecting (beginStart e s) = True"
  "isConnected (beginStart e s) = isConnected s"
  "room (beginStart e s) = room s"
  "localAudioTrack (beginStart e s) = localAudioTrack s"
  "length (console (beginStart e s)) = Suc (length (console s))"
  by (simp_all add: beginStart_def)

lemma getToken_cases:
  "(\<exists>err. getTokenFromBackend e s = (Inl err, doFetch initRequest
        (updateStatus e ''Initializing interview backend...'' Info s)))
   \<or> (\<exists>err. getTokenFromBackend e s = (Inl err, afterToken e s))
   \<or> (\<exists>td. getTokenFromBackend e s = (Inr td, afterToken e s))"
proof (cases "initResult e")
  case (Inl err)
  then have "getTokenFromBackend e s = (Inl err, doFetch initRequest
        (updateStatus e ''Initializing interview backend...'' Info s))"
    by (simp add: getTokenFromBackend_def)
  then show ?thesis by blast
next
  case initR: (Inr ri)
  show ?thesis
  proof (cases "ok ri")
    case False
    with initR have "getTokenFromBackend e s =
        (Inl (ErrorObj (''Init failed: '' @ showNat (respStatus ri) @ '' - '' @ respText ri)),
         doFetch initRequest (updateStatus e ''Initializing interview backend...'' Info s))"
      by (simp add: getTokenFromBackend_def)
    then show ?thesis by blast
  next
    case okInit: True
    show ?thesis
    proof (cases "tokenResult e")
      case (Inl err)
      with initR okInit have "getTokenFromBackend e s = (Inl err, afterToken e s)"
        by (simp add: getTokenFromBackend_def afterToken_def)
      then show ?thesis by blast
    next
      case tokR: (Inr rt)
      show ?thesis
      proof (cases "ok rt")
        case False
        with initR okInit tokR have "getTokenFromBackend e s =
            (Inl (ErrorObj (''Token failed: '' @ showNat (respStatus rt) @ '' - '' @ respText rt)),
             afterToken e s)"
          by (rule getToken_token_failed)
        then show ?thesis by blast
      next
        case True
        with initR okInit tokR have "getTokenFromBackend e s = (respJson rt, afterToken e s)"
          by (rule getToken_ok)
        then show ?thesis by (cases "respJson rt") auto
      qed
    qed
  qed
qed

lemma startTry_no_token_trace:
  assumes "getTokenFromBackend e s = (Inl err, s1)"
  shows "startTry e cr s = catchConnection e err s1"
  using assms by (simp add: startTry_def)

lemma startTry_token_cases:
  assumes "getTokenFromBackend e s = (Inr td, afterToken e s)"
  shows "startTry e cr s =
     (case connectResult e of
        None \<Rightarrow> onConnected e cr (length (rooms s)) (atConnect e cr (livekit_url td) (token td) True s)
      | Some err \<Rightarrow> catchConnection e err (atConnect e cr (livekit_url td) (token td) False s))"
proof -
  let ?s2 = "updateStatus e (checkMark @ '' Token received, connecting to LiveKit...'') Success
               (afterToken e s)"
  let ?c = "roomConnect e (length (rooms ?s2)) (livekit_url td) (token td)
              (registerHandlers (length (rooms ?s2)) (newRoom cr ?s2))"
  have st: "startTry e cr s = (case fst ?c of None \<Rightarrow> snd ?c | Some err \<Rightarrow> catchConnection e err (snd ?c))"
    using assms by (simp add: startTry_def Let_def case_prod_beta)
  show ?thesis
  proof (cases "connectResult e")
    case None
    have f: "fst ?c = None"
      using None by (simp only: roomConnect_fresh_fst)
    have g: "snd ?c = onConnected e cr (length (rooms ?s2))
        (?s2\<lparr>trace := trace ?s2 @ setupActions (length (rooms ?s2))
                   @ [Connect (length (rooms ?s2)) (livekit_url td) (token td)],
           rooms := rooms ?s2 @ [(readyRoom cr)\<lparr>connOpen := True\<rparr>]\<rparr>)"
      using None by (rule roomConnect_fresh_ok)
    show ?thesis
      unfolding st f g using None by (simp add: atConnect_def)
  next
    case (Some err)
    have f: "fst ?c = Some err"
      using Some by (simp only: roomConnect_fresh_fst)
    have g: "snd ?c = ?s2\<lparr>trace := trace ?s2 @ setupActions (length (rooms ?s2))
                   @ [Connect (length (rooms ?s2)) (livekit_url td) (token td)],
           rooms := rooms ?s2 @ [readyRoom cr]\<rparr>"
      using Some by (rule roomConnect_fresh_fail)
    show ?thesis
      unfolding st f g using Some by (simp add: atConnect_def readyRoom_def)
  qed
qed

lemma start_newActions_cases:
  assumes "\<not> isConnecting s" "\<not> isConnected s"
  shows "newActions s (startVoiceInterview e s) = [Fetch initRequest]
    \<or> newActions s (startVoiceInterview e s) = [Fetch initRequest, Fetch tokenRequest]
    \<or> (\<exists>url tok. newActions s (startVoiceInterview e s) = [Fetch initRequest, Fetch tokenRequest]
           @ setupActions (length (rooms s)) @ [Connect (length (rooms s)) url tok])
    \<or> (\<exists>url tok. newActions s (startVoiceInterview e s) = [Fetch initRequest, Fetch tokenRequest]
           @ setupActions (length (rooms s)) @ [Connect (length (rooms s)) url tok]
           @ micActions e (length (rooms s)) (length (localTracks s)))"
proof -
  let ?b = "beginStart e s"
  consider (a) err where "getTokenFromBackend e ?b = (Inl err, doFetch initRequest
        (updateStatus e ''Initializing interview backend...'' Info ?b))"
    | (b) err where "getTokenFromBackend e ?b = (Inl err, afterToken e ?b)"
    | (c) td where "getTokenFromBackend e ?b = (Inr td, afterToken e ?b)"
    using getToken_cases [of e ?b] by blast
  then show ?thesis
  proof cases
    case a
    then show ?thesis
      using assms by (simp add: start_idle startTry_no_token_trace newActions_def)
  next
    case b
    then show ?thesis
      using assms by (simp add: start_idle startTry_no_token_trace newActions_def)
  next
    case c
    show ?thesis
    proof (cases "connectResult e")
      case None
      then show ?thesis
        using assms c by (simp add: start_idle startTry_token_cases newActions_def)
    next
      case (Some err)
      then show ?thesis
        using assms c by (simp add: start_idle startTry_token_cases newActions_def)
    qed
  qed
qed

lemma listenersReady_micActions:
  "listenersReady seen (micActions e r t) = True"
  by (simp add: micActions_def split: option.splits)

lemma fold_endTrack_frame [simp]:
  "trace (fold endTrack ts s) = trace s"
  "rooms (fold endTrack ts s) = rooms s"
  "isConnecting (fold endTrack ts s) = isConnecting s"
  "isConnected (fold endTrack ts s) = isConnected s"
  "room (fold endTrack ts s) = room s"
  "localAudioTrack (fold endTrack ts s) = localAudioTrack s"
  "documentBody (fold endTrack ts s) = documentBody s"
  "console (fold endTrack ts s) = console s"
  by (induction ts arbitrary: s) (simp_all add: endTrack_def)

lemma onDisconnected_frame [simp]:
  "trace (onDisconnected e s) = trace s"
  "rooms (onDisconnected e s) = rooms s"
  "localTracks (onDisconnected e s) = localTracks s"
  "documentBody (onDisconnected e s) = documentBody s"
  "isConnecting (onDisconnected e s) = isConnecting s"
  "isConnected (onDisconnected e s) = False"
  "room (onDisconnected e s) = None"
  "localAudioTrack (onDisconnected e s) = None"
  by (simp_all add: onDisconnected_def Let_def)

lemma fold_unsubscribed_frame [simp]:
  "trace (fold onTrackUnsubscribed subs s) = trace s @ map (\<lambda>track. Detach (trackSid track)) subs"
  "rooms (fold onTrackUnsubscribed subs s) = rooms s"
  "localTracks (fold onTrackUnsubscribed subs s) = localTracks s"
  "isConnecting (fold onTrackUnsubscribed subs s) = isConnecting s"
  "isConnected (fold onTrackUnsubscribed subs s) = isConnected s"
  "room (fold onTrackUnsubscribed subs s) = room s"
  "localAudioTrack (fold onTrackUnsubscribed subs s) = localAudioTrack s"
  "console (fold onTrackUnsubscribed subs s) = console s"
  "length (documentBody (fold onTrackUnsubscribed subs s)) = length (documentBody s)"
  by (induction subs arbitrary: s) (simp_all add: onTrackUnsubscribed_def)

lemma unsubscribeAll_frame [simp]:
  "trace (unsubscribeAll r subs s) = trace s @
     (if hasListener r TrackUnsubscribed s then map (\<lambda>track. Detach (trackSid track)) subs else [])"
  "rooms (unsubscribeAll r subs s) = (rooms s)[r := (rooms s ! r)\<lparr>subscribed := []\<rparr>]"
  "localTracks (unsubscribeAll r subs s) = localTracks s"
  "isConnecting (unsubscribeAll r subs s) = isConnecting s"
  "isConnected (unsubscribeAll r subs s) = isConnected s"
  "room (unsubscribeAll r subs s) = room s"
  "localAudioTrack (unsubscribeAll r subs s) = localAudioTrack s"
  "console (unsubscribeAll r subs s) = console s"
  "length (documentBody (unsubscribeAll r subs s)) = length (documentBody s)"
  by (auto simp add: unsubscribeAll_def Let_def updRoom_def hasListener_def)

lemma closeRoom_trace: "trace (closeRoom e r s) = trace s @ closeActions e r s"
  by (auto simp add: closeRoom_def Let_def updRoom_def closeActions_def hasListener_def)

lemma closeActions_trace [simp]: "closeActions e r (s\<lparr>trace := tr\<rparr>) = closeActions e r s"
  by (simp add: closeActions_def hasListener_def)

lemma trackStop_cases:
  "trackStopResult e = None \<Longrightarrow>
     trackStop e t s = (None, endTrack t (s\<lparr>trace := trace s @ [TrackStop t]\<rparr>))"
  "trackStopResult e = Some err \<Longrightarrow>
     trackStop e t s = (Some err, s\<lparr>trace := trace s @ [TrackStop t]\<rparr>)"
  by (simp_all add: trackStop_def Let_def)

lemma roomDisconnect_cases:
  "disconnectResult e = None \<Longrightarrow> isOpen r s \<Longrightarrow>
     roomDisconnect e r s = (None, closeRoom e r (s\<lparr>trace := trace s @ [Disconnect r]\<rparr>))"
  "disconnectResult e = None \<Longrightarrow> \<not> isOpen r s \<Longrightarrow>
     roomDisconnect e r s = (None, s\<lparr>trace := trace s @ [Disconnect r]\<rparr>)"
  "disconnectResult e = Some err \<Longrightarrow>
     roomDisconnect e r s = (Some err, s\<lparr>trace := trace s @ [Disconnect r]\<rparr>)"
  by (auto simp add: roomDisconnect_def isOpen_def Let_def)

text \<open>The statements of the \<open>try\<close> block of \<open>stopVoiceInterview\<close>, one after the other.\<close>

lemma releaseTrack_fst:
  "fst (releaseTrack e ot s) = (if ot = None then None else trackStopResult e)"
  by (cases ot; cases "trackStopResult e") (simp_all add: releaseTrack_def trackStop_def Let_def)

lemma releaseTrack_frame [simp]:
  "trace (snd (releaseTrack e ot s)) = trace s @ (case ot of None \<Rightarrow> [] | Some t \<Rightarrow> [TrackStop t])"
  "rooms (snd (releaseTrack e ot s)) = rooms s"
  "documentBody (snd (releaseTrack e ot s)) = documentBody s"
  "console (snd (releaseTrack e ot s)) = console s"
  "isConnecting (snd (releaseTrack e ot s)) = isConnecting s"
  by (cases ot; cases "trackStopResult e";
      simp add: releaseTrack_def trackStop_def endTrack_def Let_def)+

lemma releaseRoom_fst:
  "fst (releaseRoom e orr s) = (if orr = None then None else disconnectResult e)"
  by (cases orr; cases "disconnectResult e")
     (simp_all add: releaseRoom_def roomDisconnect_def Let_def)

lemma releaseRoom_trace:
  "trace (snd (releaseRoom e orr s)) = trace s @
     (case orr of
        None \<Rightarrow> []
      | Some r \<Rightarrow> Disconnect r #
          (if disconnectResult e = None \<and> isOpen r s then closeActions e r s else []))"
  by (cases orr; cases "disconnectResult e")
     (simp_all add: releaseRoom_def roomDisconnect_def isOpen_def closeRoom_trace Let_def)

lemma notifyBackend_trace:
  "trace (snd (notifyBackend e s)) = trace s @ [Fetch stopRequest]"
  by (simp add: notifyBackend_def Let_def split: sum.splits)

lemma stop_unfold:
  "stopVoiceInterview e s =
     (let s1 = updateStatus e ''Stopping interview...'' Info s;
          a = releaseTrack e (localAudioTrack s) s1;
          b = releaseRoom e (room s) (snd a);
          c = notifyBackend e (snd b);
          r = (if fst a \<noteq> None then a else if fst b \<noteq> None then b else c)
      in case fst r of
           None \<Rightarrow> snd r
         | Some err \<Rightarrow>
             updateStatus e (crossMark @ '' Stop error: '' @ errorMessage err) Error (snd r))"
  by (auto simp add: stopVoiceInterview_def stopTry_def Let_def case_prod_beta
      split: option.splits)

lemma stop_trace:
  "trace (stopVoiceInterview e s) =
     trace s @ cleanupActions e s @ (if cleanupCompletes e s then [Fetch stopRequest] else [])"
proof -
  let ?s1 = "updateStatus e ''Stopping interview...'' Info s"
  let ?a = "releaseTrack e (localAudioTrack s) ?s1"
  let ?b = "releaseRoom e (room s) (snd ?a)"
  let ?c = "notifyBackend e (snd ?b)"
  have res: "trace (stopVoiceInterview e s) =
      trace (snd (if fst ?a \<noteq> None then ?a else if fst ?b \<noteq> None then ?b else ?c))"
    unfolding stop_unfold [of e s] Let_def by (simp split: option.splits)
  show ?thesis
    unfolding res
    by (cases "localAudioTrack s"; cases "trackStopResult e"; cases "room s";
        cases "disconnectResult e")
       (simp_all add: releaseTrack_fst releaseRoom_fst notifyBackend_trace releaseRoom_trace
          isOpen_def closeActions_def hasListener_def cleanupActions_def cleanupCompletes_def)
qed

lemmas evalDefs = startVoiceInterview_def beginStart_def startTry_def getTokenFromBackend_def
  updateStatus_def doFetch_def ok_def Let_def newRoom_def registerHandlers_def roomOn_def
  updRoom_def roomConnect_def hasListener_def closureOf_def onConnected_def
  handleParticipantUpdate_def enableMicrophone_def catchMicrophone_def catchConnection_def
  stopVoiceInterview_def stopTry_def releaseTrack_def releaseRoom_def notifyBackend_def
  trackStop_def endTrack_def roomDisconnect_def closeRoom_def unsubscribeAll_def isOpen_def
  onDisconnected_def onTrackSubscribed_def onTrackUnsubscribed_def initialState_def
  scenarioEnv_def credentialErrorEnv_def micDeniedEnv_def publishFailEnv_def keepTracksEnv_def
  teardownErrorEnv_def teardownDownEnv_def disconnectRejectEnv_def response_def tokenData_def
  agentTrack_def cameraTrack_def okResponse_def tokenOkResponse_def serverError_def

lemma scenario_hyps:
  "\<not> isConnecting initialState" "\<not> isConnected initialState"
  "ok okResponse" "ok tokenOkResponse" "respJson tokenOkResponse = Inr tokenData"
  "\<not> ok serverError"
  by (simp_all add: initialState_def okResponse_def tokenOkResponse_def serverError_def
      response_def ok_def)

section \<open>The properties of the specification\<close>

subsection \<open>Teardown\<close>

lemma nth_list_update_any:
  "i < length xs \<Longrightarrow> xs[t := x] ! i = (if i = t then x else xs ! i)"
  by (cases "t < length xs") (auto simp add: nth_list_update)

lemma endTrack_localTracks:
  "length (localTracks (endTrack t s)) = length (localTracks s)"
  "i < length (localTracks s) \<Longrightarrow>
     live (localTracks (endTrack t s) ! i) = (live (localTracks s ! i) \<and> i \<noteq> t)"
  by (auto simp add: endTrack_def nth_list_update_any)

lemma fold_endTrack_localTracks:
  "length (localTracks (fold endTrack ts s)) = length (localTracks s)"
  "i < length (localTracks s) \<Longrightarrow>
     live (localTracks (fold endTrack ts s) ! i) = (live (localTracks s ! i) \<and> i \<notin> set ts)"
  by (induction ts arbitrary: s) (auto simp add: endTrack_localTracks)

lemma closeRoom_localTracks:
  "length (localTracks (closeRoom e r s)) = length (localTracks s)"
  "i < length (localTracks s) \<Longrightarrow> live (localTracks (closeRoom e r s) ! i)
     \<Longrightarrow> live (localTracks s ! i)"
  by (simp_all add: closeRoom_def Let_def updRoom_def onDisconnected_def
      fold_endTrack_localTracks split: if_splits)

lemma closeRoom_rooms:
  "length (rooms (closeRoom e r s)) = length (rooms s)"
  "i < length (rooms s) \<Longrightarrow>
     connOpen (rooms (closeRoom e r s) ! i) = (connOpen (rooms s ! i) \<and> i \<noteq> r)"
  by (auto simp add: closeRoom_def Let_def updRoom_def nth_list_update_any)

lemma releaseTrack_localTracks:
  assumes "trackStopResult e = None"
  shows "length (localTracks (snd (releaseTrack e ot s))) = length (localTracks s)"
    and "i < length (localTracks s) \<Longrightarrow>
       live (localTracks (snd (releaseTrack e ot s)) ! i) = (live (localTracks s ! i) \<and> ot \<noteq> Some i)"
  using assms
  by (cases ot; auto simp add: releaseTrack_def trackStop_cases endTrack_localTracks)+

lemma releaseRoom_localTracks:
  "length (localTracks (snd (releaseRoom e orr s))) = length (localTracks s)"
  "i < length (localTracks s) \<Longrightarrow> live (localTracks (snd (releaseRoom e orr s)) ! i)
     \<Longrightarrow> live (localTracks s ! i)"
proof -
  show "length (localTracks (snd (releaseRoom e orr s))) = length (localTracks s)"
    by (cases orr; cases "disconnectResult e")
       (simp_all add: releaseRoom_def roomDisconnect_def Let_def closeRoom_localTracks)
  show "live (localTracks s ! i)"
    if "i < length (localTracks s)" "live (localTracks (snd (releaseRoom e orr s)) ! i)"
  proof (cases orr)
    case None
    then show ?thesis using that by (simp add: releaseRoom_def)
  next
    case (Some r)
    let ?s1 = "s\<lparr>trace := trace s @ [Disconnect r]\<rparr>"
    have "snd (releaseRoom e orr s) = ?s1 \<or> snd (releaseRoom e orr s) = closeRoom e r ?s1"
      using Some
      by (cases "disconnectResult e") (simp_all add: releaseRoom_def roomDisconnect_def Let_def)
    then show ?thesis
      using that closeRoom_localTracks(2) [of i ?s1 e r] by auto
  qed
qed

lemma releaseRoom_rooms:
  assumes "disconnectResult e = None"
  shows "length (rooms (snd (releaseRoom e orr s))) = length (rooms s)"
    and "i < length (rooms s) \<Longrightarrow>
       connOpen (rooms (snd (releaseRoom e orr s)) ! i) = (connOpen (rooms s ! i) \<and> orr \<noteq> Some i)"
  using assms
  by (cases orr; auto simp add: releaseRoom_def roomDisconnect_def Let_def isOpen_def
        closeRoom_rooms)+

lemma notifyBackend_frame [simp]:
  "localTracks (snd (notifyBackend e s)) = localTracks s"
  "rooms (snd (notifyBackend e s)) = rooms s"
  "documentBody (snd (notifyBackend e s)) = documentBody s"
  by (simp_all add: notifyBackend_def Let_def split: sum.splits)

lemma stop_when_cleanup_completes:
  assumes "trackStopResult e = None" "disconnectResult e = None"
  shows "localTracks (stopVoiceInterview e s) = localTracks (snd (releaseRoom e (room s)
           (snd (releaseTrack e (localAudioTrack s)
              (updateStatus e ''Stopping interview...'' Info s)))))"
    and "rooms (stopVoiceInterview e s) = rooms (snd (releaseRoom e (room s)
           (snd (releaseTrack e (localAudioTrack s)
              (updateStatus e ''Stopping interview...'' Info s)))))"
  using assms unfolding stop_unfold [of e s] Let_def
  by (simp_all add: releaseTrack_fst releaseRoom_fst split: option.splits)

text \<open>
  Where every captured track is the one the component holds and every open room is the
  one it holds, and neither \<open>track.stop()\<close> nor \<open>room.disconnect()\<close> throws, nothing is left
  captured or open after \<open>stopVoiceInterview\<close>, whatever becomes of the teardown request.
\<close>

lemma stop_releases_what_is_held:
  assumes tracks: "\<And>t. t < length (localTracks s) \<Longrightarrow> live (localTracks s ! t)
                     \<Longrightarrow> localAudioTrack s = Some t"
    and conns: "\<And>r. r < length (rooms s) \<Longrightarrow> connOpen (rooms s ! r) \<Longrightarrow> room s = Some r"
    and calm: "trackStopResult e = None" "disconnectResult e = None"
  shows "\<not> deviceCaptured (stopVoiceInterview e s)"
    and "\<not> connectionOpen (stopVoiceInterview e s)"
proof -
  let ?s1 = "updateStatus e ''Stopping interview...'' Info s"
  let ?a = "snd (releaseTrack e (localAudioTrack s) ?s1)"
  let ?b = "snd (releaseRoom e (room s) ?a)"
  note fin = stop_when_cleanup_completes [OF calm, of s]
  have len_a: "length (localTracks ?a) = length (localTracks s)"
    by (simp add: releaseTrack_localTracks(1) [OF calm(1)])
  have dead_a: "\<not> live (localTracks ?a ! i)" if "i < length (localTracks s)" for i
    using tracks [OF that] that releaseTrack_localTracks(2) [OF calm(1), of i ?s1 "localAudioTrack s"]
    by auto
  have len_b: "length (localTracks ?b) = length (localTracks s)"
    using len_a by (simp add: releaseRoom_localTracks(1))
  have dead_b: "\<not> live (localTracks ?b ! i)" if "i < length (localTracks s)" for i
    using dead_a [OF that] that len_a releaseRoom_localTracks(2) [of i ?a e "room s"] by auto
  show "\<not> deviceCaptured (stopVoiceInterview e s)"
    using len_b dead_b by (auto simp add: deviceCaptured_def fin list_ex_iff in_set_conv_nth)
  have rooms_a: "rooms ?a = rooms s"
    by simp
  have len_r: "length (rooms ?b) = length (rooms s)"
    using rooms_a by (simp add: releaseRoom_rooms(1) [OF calm(2)])
  have closed: "\<not> connOpen (rooms ?b ! i)" if "i < length (rooms s)" for i
    using conns [OF that] that rooms_a releaseRoom_rooms(2) [OF calm(2), of i ?a "room s"]
    by auto
  show "\<not> connectionOpen (stopVoiceInterview e s)"
    using len_r closed by (auto simp add: connectionOpen_def fin list_ex_iff in_set_conv_nth)
qed

lemma stop_cleans_up_when_teardown_fails:
  "stopResult teardownDownEnv = Inl (ErrorObj ''Failed to fetch'')"
  "deviceCaptured connectedSession" "connectionOpen connectedSession"
  "\<not> deviceCaptured (stopVoiceInterview teardownDownEnv connectedSession)"
  "\<not> connectionOpen (stopVoiceInterview teardownDownEnv connectedSession)"
  "statusType (stopVoiceInterview teardownDownEnv connectedSession) = Error"
  by (simp_all add: connectedSession_def evalDefs deviceCaptured_def connectionOpen_def)

text \<open>
  C1. After \<open>stop()\<close>, from any state, no local media device remains captured and no
  connection remains open, even if the teardown notification fails. That holds for what
  the component holds, where neither \<open>track.stop()\<close> nor \<open>room.disconnect()\<close> throws
  (\<open>stop_releases_what_is_held\<close>), and the code misses a case: when
  \<open>createLocalAudioTrack\<close> has resolved and \<open>publishTrack\<close> rejects, \<open>enableMicrophone\<close>
  reports the error and drops the track it created without stopping it. The component
  then holds no track, \<open>stopVoiceInterview\<close> has nothing to stop, and the device stays
  captured after it (the room is closed). This is so even where the room service stops the
  published tracks of a closing room, since this track was never published.
\<close>

theorem stop_leaves_unpublished_track_captured:
  "localAudioTrack (startVoiceInterview publishFailEnv initialState) = None
   \<and> deviceCaptured (startVoiceInterview publishFailEnv initialState)
   \<and> deviceCaptured (stopVoiceInterview publishFailEnv
         (startVoiceInterview publishFailEnv initialState))
   \<and> \<not> connectionOpen (stopVoiceInterview publishFailEnv
         (startVoiceInterview publishFailEnv initialState))"
  by (simp add: evalDefs deviceCaptured_def connectionOpen_def)

subsection \<open>The guard of \<open>startVoiceInterview\<close>\<close>

text \<open>
  C2. Calling \<open>start()\<close> while the session is Connecting or Connected changes nothing:
  the state, with the calls made so far, is the same, so there is no second credential
  request and no second connection.
\<close>

theorem start_guard_is_noop:
  "isConnecting s \<or> isConnected s \<Longrightarrow>
     startVoiceInterview e s = s
     \<and> credentialRequests (startVoiceInterview e s) = credentialRequests s
     \<and> connectAttempts (startVoiceInterview e s) = connectAttempts s"
  by (simp add: startVoiceInterview_def)

text \<open>
  The guard at work in the scenario: while the first call is still in its \<open>try\<close> block,
  and after it has connected.
\<close>

theorem start_guard_is_noop_witness:
  "isConnecting (beginStart scenarioEnv initialState)
   \<and> startVoiceInterview scenarioEnv (beginStart scenarioEnv initialState)
       = beginStart scenarioEnv initialState
   \<and> isConnected (startVoiceInterview scenarioEnv initialState)
   \<and> startVoiceInterview scenarioEnv (startVoiceInterview scenarioEnv initialState)
       = startVoiceInterview scenarioEnv initialState"
proof -
  have a: "isConnecting (beginStart scenarioEnv initialState)"
    by simp
  have b: "isConnected (startVoiceInterview scenarioEnv initialState)"
    by (simp add: evalDefs)
  show ?thesis
    using a b start_guard_is_noop [of "beginStart scenarioEnv initialState" scenarioEnv]
      start_guard_is_noop [of "startVoiceInterview scenarioEnv initialState" scenarioEnv]
    by simp
qed

subsection \<open>A credential request that fails\<close>

text \<open>
  C3. When the credential request answers with a status outside 200..299, the session goes
  from Connecting to Failed, the status shown holds the response status and the body text,
  and no room is created and no connection attempted.
\<close>

theorem credential_failure_fails_session:
  assumes "\<not> isConnecting s" "\<not> isConnected s"
    and "initResult e = Inr ri" "ok ri"
    and "tokenResult e = Inr rt" "\<not> ok rt"
  shows "isConnecting (beginStart e s)
    \<and> isFailed (startVoiceInterview e s)
    \<and> status (startVoiceInterview e s) =
         ''['' @ clock e (length (console s) + 3) @ ''] '' @ crossMark
         @ '' Connection failed: Token failed: '' @ showNat (respStatus rt) @ '' - '' @ respText rt
    \<and> sublist (showNat (respStatus rt)) (status (startVoiceInterview e s))
    \<and> sublist (respText rt) (status (startVoiceInterview e s))
    \<and> connectAttempts (startVoiceInterview e s) = connectAttempts s
    \<and> rooms (startVoiceInterview e s) = rooms s"
proof -
  let ?s' = "startVoiceInterview e s"
  have eq: "?s' = (catchConnection e
     (ErrorObj (''Token failed: '' @ showNat (respStatus rt) @ '' - '' @ respText rt))
     (afterToken e (beginStart e s)))\<lparr>isConnecting := False\<rparr>"
    using assms by (simp add: start_idle startTry_token_failed)
  have st: "status ?s' = ''['' @ clock e (length (console s) + 3) @ ''] '' @ crossMark
           @ '' Connection failed: Token failed: '' @ showNat (respStatus rt) @ '' - '' @ respText rt"
    by (simp add: eq numeral_3_eq_3)
  have "sublist (showNat (respStatus rt)) (status ?s')"
    unfolding st sublist_def by (metis append.assoc)
  moreover have "sublist (respText rt) (status ?s')"
    unfolding st sublist_def by (metis append.assoc append_Nil2)
  moreover have "isFailed ?s'"
    using assms(2) by (simp add: eq isFailed_def)
  moreover have "connectAttempts ?s' = connectAttempts s"
    by (simp add: eq connectAttempts_def)
  moreover have "rooms ?s' = rooms s"
    by (simp add: eq)
  ultimately show ?thesis
    using st by simp
qed

text \<open>The scenario of the specification: status 500 with body \<open>server error\<close>.\<close>

theorem credential_failure_fails_session_witness:
  "\<not> ok serverError
   \<and> isFailed (startVoiceInterview credentialErrorEnv initialState)
   \<and> sublist ''500'' (status (startVoiceInterview credentialErrorEnv initialState))
   \<and> sublist ''server error'' (status (startVoiceInterview credentialErrorEnv initialState))
   \<and> connectAttempts (startVoiceInterview credentialErrorEnv initialState) = []"
proof -
  have init: "initResult credentialErrorEnv = Inr okResponse"
    by (simp add: credentialErrorEnv_def scenarioEnv_def)
  have tok: "tokenResult credentialErrorEnv = Inr serverError"
    by (simp add: credentialErrorEnv_def)
  have n: "showNat (respStatus serverError) = ''500''"
    by (simp add: serverError_def response_def showNat.simps digit_def)
  have b: "respText serverError = ''server error''"
    by (simp add: serverError_def response_def)
  have c: "connectAttempts initialState = []"
    by (simp add: connectAttempts_def initialState_def)
  show ?thesis
    using credential_failure_fails_session [OF scenario_hyps(1,2) init scenario_hyps(3) tok
        scenario_hyps(6)] scenario_hyps(6)
    unfolding n b c by blast
qed

subsection \<open>Leaving Connected\<close>

text \<open>
  C4. The local microphone track is released, the device freed, on every way out of
  Connected, a disconnect from the other side included. The \<open>Disconnected\<close> handler sets
  \<open>localAudioTrack\<close> to null and never calls \<open>stop()\<close> on the track, which
  \<open>stopVoiceInterview\<close> does. Two runs end with the session not connected and the device
  still captured: one where the publish failed and the room service stops published tracks
  (the track of the failed publish is not one of them), and one where the track is
  published and held and the room service leaves tracks alone.
\<close>

theorem disconnect_leaves_device_captured:
  "isConnected (startVoiceInterview publishFailEnv initialState)
   \<and> \<not> isConnected (roomServiceEvent publishFailEnv 0 ServerDisconnect
          (startVoiceInterview publishFailEnv initialState))
   \<and> deviceCaptured (roomServiceEvent publishFailEnv 0 ServerDisconnect
          (startVoiceInterview publishFailEnv initialState))
   \<and> localAudioTrack (startVoiceInterview keepTracksEnv initialState) = Some 0
   \<and> \<not> isConnected (roomServiceEvent keepTracksEnv 0 ServerDisconnect
          (startVoiceInterview keepTracksEnv initialState))
   \<and> localAudioTrack (roomServiceEvent keepTracksEnv 0 ServerDisconnect
          (startVoiceInterview keepTracksEnv initialState)) = None
   \<and> deviceCaptured (roomServiceEvent keepTracksEnv 0 ServerDisconnect
          (startVoiceInterview keepTracksEnv initialState))
   \<and> TrackStop 0 \<notin> set (trace (roomServiceEvent keepTracksEnv 0 ServerDisconnect
          (startVoiceInterview keepTracksEnv initialState)))"
  by (simp add: evalDefs deviceCaptured_def)

subsection \<open>A microphone that fails\<close>

text \<open>
  C5, as the code has it. A microphone failure during acquisition is not fatal to the
  session. \<open>enableMicrophone\<close> catches the error and shows it as an error status; the
  session stays Connected with its connection open, no local track is created and none
  is held.
\<close>

theorem microphone_failure_keeps_session_connected:
  assumes "\<not> isConnecting s" "\<not> isConnected s"
    and "initResult e = Inr ri" "ok ri"
    and "tokenResult e = Inr rt" "ok rt" "respJson rt = Inr td"
    and "connectResult e = None"
    and "micResult e = Some err"
  shows "isConnected (startVoiceInterview e s)
    \<and> \<not> isFailed (startVoiceInterview e s)
    \<and> room (startVoiceInterview e s) = Some (length (rooms s))
    \<and> connOpen (rooms (startVoiceInterview e s) ! length (rooms s))
    \<and> statusType (startVoiceInterview e s) = Error
    \<and> status (startVoiceInterview e s) =
         ''['' @ clock e (length (console s) + 6) @ ''] '' @ crossMark
         @ '' Microphone error: '' @ errorMessage err
    \<and> localTracks (startVoiceInterview e s) = localTracks s
    \<and> localAudioTrack (startVoiceInterview e s) = localAudioTrack s"
proof -
  let ?s' = "startVoiceInterview e s"
  let ?c = "atConnect e (room s) (livekit_url td) (token td) True (beginStart e s)"
  have eq: "?s' = (onConnected e (room s) (length (rooms s)) ?c)\<lparr>isConnecting := False\<rparr>"
    using assms startTry_connect_ok [of e ri rt td "room s" "beginStart e s"]
    by (simp add: start_idle)
  have six: "Suc (Suc (Suc (Suc (Suc (Suc n))))) = n + 6" for n :: nat
    by simp
  show ?thesis
    using assms(9) by (simp add: eq onConnected_micFail isFailed_def micTracks_def readyRoom_def six)
qed

text \<open>The microphone permission is denied in the scenario.\<close>

theorem microphone_failure_keeps_session_connected_witness:
  "micResult micDeniedEnv = Some (ErrorObj ''Permission denied'')
   \<and> isConnected (startVoiceInterview micDeniedEnv initialState)
   \<and> connOpen (rooms (startVoiceInterview micDeniedEnv initialState) ! 0)
   \<and> statusType (startVoiceInterview micDeniedEnv initialState) = Error
   \<and> status (startVoiceInterview micDeniedEnv initialState)
       = ''[10:00:00 AM] '' @ crossMark @ '' Microphone error: Permission denied''
   \<and> localTracks (startVoiceInterview micDeniedEnv initialState) = []"
proof -
  have env: "initResult micDeniedEnv = Inr okResponse" "tokenResult micDeniedEnv = Inr tokenOkResponse"
    "connectResult micDeniedEnv = None" "micResult micDeniedEnv = Some (ErrorObj ''Permission denied'')"
    "clock micDeniedEnv = (\<lambda>n. ''10:00:00 AM'')"
    by (simp_all add: micDeniedEnv_def scenarioEnv_def)
  have ini: "rooms initialState = []" "localTracks initialState = []"
    by (simp_all add: initialState_def)
  show ?thesis
    using microphone_failure_keeps_session_connected [OF scenario_hyps(1,2) env(1)
        scenario_hyps(3) env(2) scenario_hyps(4,5) env(3,4)] env(4,5) ini
    by simp
qed

text \<open>
  As the specification states it, the session would be Failed after a microphone failure.
  It is not: it is connected.
\<close>

theorem microphone_failure_not_failed:
  "micResult micDeniedEnv = Some (ErrorObj ''Permission denied'')
   \<and> \<not> isFailed (startVoiceInterview micDeniedEnv initialState)
   \<and> isConnected (startVoiceInterview micDeniedEnv initialState)"
  by (simp add: evalDefs isFailed_def)

subsection \<open>Playback elements\<close>

lemma sum_list_map_update:
  fixes f :: "'a \<Rightarrow> nat"
  shows "r < length xs \<Longrightarrow> sum_list (map f (xs[r := x])) + f (xs ! r) = sum_list (map f xs) + f x"
proof (induction xs arbitrary: r)
  case Nil
  then show ?case by simp
next
  case (Cons y ys)
  then show ?case by (cases r) auto
qed

lemma map_update_same:
  "f x = f (xs ! r) \<Longrightarrow> map f (xs[r := x]) = map f xs"
  by (auto simp add: list_eq_iff_nth_eq nth_list_update_any)

lemma list_all_update:
  "list_all P xs \<Longrightarrow> P x \<Longrightarrow> list_all P (xs[r := x])"
  using set_update_subset_insert [of xs r x] by (auto simp add: list_all_iff)

lemma pending_update:
  "r < length (rooms s) \<Longrightarrow>
     pending (s\<lparr>rooms := (rooms s)[r := x]\<rparr>) + length (subscribed (rooms s ! r))
       = pending s + length (subscribed x)"
  using sum_list_map_update [of r "rooms s" "\<lambda>i. length (subscribed i)" x]
  by (simp add: pending_def)

lemma pending_same:
  "map subscribed (rooms s') = map subscribed (rooms s) \<Longrightarrow> pending s' = pending s"
proof -
  assume "map subscribed (rooms s') = map subscribed (rooms s)"
  then have "map length (map subscribed (rooms s')) = map length (map subscribed (rooms s))"
    by simp
  then show ?thesis
    by (simp add: pending_def comp_def)
qed

text \<open>What a step may change and keep every attach matched.\<close>

lemma matched_step:
  assumes "matched s"
    and "attachCount s' = attachCount s + a" "detachCount s' = detachCount s + d"
    and "pending s' + d = pending s + a"
    and "length (documentBody s') = length (documentBody s) + a"
    and "list_all wired (rooms s')"
  shows "matched s'"
  using assms by (simp add: matched_def)

lemma list_all_map_cong:
  assumes "map P xs = map P ys"
  shows "list_all P xs = list_all P ys"
  using assms by (auto simp add: list_all_length list_eq_iff_nth_eq)

lemma matched_frame:
  assumes "filter isAttach (trace s') = filter isAttach (trace s)"
    and "filter isDetach (trace s') = filter isDetach (trace s)"
    and "map subscribed (rooms s') = map subscribed (rooms s)"
    and "map wired (rooms s') = map wired (rooms s)"
    and "length (documentBody s') = length (documentBody s)"
  shows "matched s' = matched s"
  using assms(1,2,5) pending_same [OF assms(3)] list_all_map_cong [OF assms(4)]
  by (simp add: matched_def attachCount_def detachCount_def)

lemma closedRoomsClear_frame:
  assumes "map (\<lambda>i. connOpen i \<or> subscribed i = []) (rooms s')
             = map (\<lambda>i. connOpen i \<or> subscribed i = []) (rooms s)"
  shows "closedRoomsClear s' = closedRoomsClear s"
  using list_all_map_cong [OF assms] by (simp add: closedRoomsClear_def)

lemma matched_wired:
  "matched s \<Longrightarrow> r < length (rooms s) \<Longrightarrow> wired (rooms s ! r)"
  by (simp add: matched_def list_all_length)

lemma count_detaches [simp]:
  "filter isDetach (map (\<lambda>track. Detach (trackSid track)) subs)
     = map (\<lambda>track. Detach (trackSid track)) subs"
  "filter isAttach (map (\<lambda>track. Detach (trackSid track)) subs) = []"
  by (induction subs) simp_all

lemma micActions_counts [simp]:
  "filter isAttach (micActions e r t) = []"
  "filter isDetach (micActions e r t) = []"
  by (simp_all add: micActions_def split: option.splits)

lemma setupActions_counts [simp]:
  "filter isAttach (setupActions r) = []"
  "filter isDetach (setupActions r) = []"
  by (simp_all add: setupActions_def)

text \<open>\<open>startVoiceInterview\<close> attaches and detaches nothing; it may add a room.\<close>

lemma onConnected_rooms:
  "\<exists>p. rooms (onConnected e cr r s) = (rooms s)[r := (rooms s ! r)\<lparr>published := p\<rparr>]"
proof (cases "micResult e")
  case (Some err)
  then have "rooms (onConnected e cr r s) = rooms s"
    by (rule onConnected_micFail(1))
  then have "rooms (onConnected e cr r s)
      = (rooms s)[r := (rooms s ! r)\<lparr>published := published (rooms s ! r)\<rparr>]"
    by simp
  then show ?thesis by blast
next
  case None
  show ?thesis
  proof (cases "publishResult e")
    case (Some err)
    with None have "rooms (onConnected e cr r s) = rooms s"
      by (rule onConnected_publishFail(1))
    then have "rooms (onConnected e cr r s)
        = (rooms s)[r := (rooms s ! r)\<lparr>published := published (rooms s ! r)\<rparr>]"
      by simp
    then show ?thesis by blast
  next
    case ok: None
    from None ok show ?thesis
      using onConnected_ok(1) [of e cr r s] by blast
  qed
qed

lemma startTry_effect:
  "filter isAttach (trace (startTry e cr b)) = filter isAttach (trace b)
   \<and> filter isDetach (trace (startTry e cr b)) = filter isDetach (trace b)
   \<and> documentBody (startTry e cr b) = documentBody b
   \<and> (rooms (startTry e cr b) = rooms b
      \<or> (\<exists>x. rooms (startTry e cr b) = rooms b @ [x]
             \<and> listeners x = allRoomEvents \<and> subscribed x = []))"
proof -
  consider (a) err where "getTokenFromBackend e b = (Inl err, doFetch initRequest
        (updateStatus e ''Initializing interview backend...'' Info b))"
    | (b) err where "getTokenFromBackend e b = (Inl err, afterToken e b)"
    | (c) td where "getTokenFromBackend e b = (Inr td, afterToken e b)"
    using getToken_cases [of e b] by blast
  then show ?thesis
  proof cases
    case a
    then show ?thesis
      by (simp add: startTry_no_token_trace)
  next
    case b
    then show ?thesis
      by (simp add: startTry_no_token_trace)
  next
    case c
    show ?thesis
    proof (cases "connectResult e")
      case (Some err)
      then show ?thesis
        using c by (simp add: startTry_token_cases readyRoom_def)
    next
      case None
      let ?at = "atConnect e cr (livekit_url td) (token td) True b"
      have st: "startTry e cr b = onConnected e cr (length (rooms b)) ?at"
        using None c by (simp add: startTry_token_cases)
      obtain p where "rooms (onConnected e cr (length (rooms b)) ?at)
          = (rooms ?at)[length (rooms b) := (rooms ?at ! length (rooms b))\<lparr>published := p\<rparr>]"
        using onConnected_rooms [of e cr "length (rooms b)" ?at] by blast
      then have "rooms (startTry e cr b)
          = rooms b @ [(readyRoom cr)\<lparr>connOpen := True, published := p\<rparr>]"
        by (simp add: st)
      then show ?thesis
        by (simp add: st readyRoom_def)
    qed
  qed
qed

lemma start_effect:
  "filter isAttach (trace (startVoiceInterview e s)) = filter isAttach (trace s)
   \<and> filter isDetach (trace (startVoiceInterview e s)) = filter isDetach (trace s)
   \<and> documentBody (startVoiceInterview e s) = documentBody s
   \<and> (rooms (startVoiceInterview e s) = rooms s
      \<or> (\<exists>x. rooms (startVoiceInterview e s) = rooms s @ [x]
             \<and> listeners x = allRoomEvents \<and> subscribed x = []))"
proof (cases "isConnecting s \<or> isConnected s")
  case True
  then show ?thesis
    by (simp add: startVoiceInterview_def)
next
  case False
  then show ?thesis
    using startTry_effect [of e "room s" "beginStart e s"] by (simp add: start_idle)
qed

lemma matched_start:
  "matched s \<Longrightarrow> matched (startVoiceInterview e s)"
  using start_effect [of e s]
  by (auto simp add: matched_def attachCount_def detachCount_def pending_def wired_def
      allRoomEvents_def)

lemma closedRoomsClear_start:
  "closedRoomsClear s \<Longrightarrow> closedRoomsClear (startVoiceInterview e s)"
  using start_effect [of e s] by (auto simp add: closedRoomsClear_def)

text \<open>A room closes: one detach for each track it had, where the room service unsubscribes them.\<close>

lemma closeRoom_body [simp]:
  "length (documentBody (closeRoom e r s)) = length (documentBody s)"
  by (simp add: closeRoom_def Let_def updRoom_def)

lemma closeRoom_rooms_unsubscribed:
  assumes "unsubscribeOnDisconnect e"
  shows "rooms (closeRoom e r s)
     = (rooms s)[r := (rooms s ! r)\<lparr>connOpen := False, published := [], subscribed := []\<rparr>]"
  using assms
  by (cases "r < length (rooms s)")
     (simp_all add: closeRoom_def Let_def updRoom_def list_update_beyond not_less)

lemma closeRoom_rooms_kept:
  assumes "\<not> unsubscribeOnDisconnect e"
  shows "rooms (closeRoom e r s)
     = (rooms s)[r := (rooms s ! r)\<lparr>connOpen := False, published := []\<rparr>]"
  using assms by (simp add: closeRoom_def Let_def updRoom_def)

lemma matched_closeRoom:
  assumes m: "matched s" and r: "r < length (rooms s)"
  shows "matched (closeRoom e r s)"
proof (cases "unsubscribeOnDisconnect e")
  case True
  let ?x = "(rooms s ! r)\<lparr>connOpen := False, published := [], subscribed := []\<rparr>"
  have w: "wired (rooms s ! r)"
    using m r by (rule matched_wired)
  have acts: "closeActions e r s = map (\<lambda>track. Detach (trackSid track)) (subscribed (rooms s ! r))"
    using True w r by (simp add: closeActions_def hasListener_def wired_def)
  have rooms': "rooms (closeRoom e r s) = (rooms s)[r := ?x]"
    using True by (rule closeRoom_rooms_unsubscribed)
  show ?thesis
  proof (rule matched_step [OF m, where a = 0 and d = "length (subscribed (rooms s ! r))"])
    show "attachCount (closeRoom e r s) = attachCount s + 0"
      by (simp add: attachCount_def closeRoom_trace acts)
    show "detachCount (closeRoom e r s) = detachCount s + length (subscribed (rooms s ! r))"
      by (simp add: detachCount_def closeRoom_trace acts)
    show "pending (closeRoom e r s) + length (subscribed (rooms s ! r)) = pending s + 0"
      using sum_list_map_update [OF r, of "\<lambda>i. length (subscribed i)" ?x]
      by (simp add: pending_def rooms')
    show "length (documentBody (closeRoom e r s)) = length (documentBody s) + 0"
      by simp
    have "wired ?x"
      using w by (simp add: wired_def)
    then show "list_all wired (rooms (closeRoom e r s))"
      using m unfolding rooms' by (simp add: matched_def list_all_update)
  qed
next
  case False
  have "closeActions e r s = []"
    using False by (simp add: closeActions_def)
  then show ?thesis
    using m False
    by (simp add: matched_frame [of "closeRoom e r s" s] closeRoom_trace closeRoom_rooms_kept
        map_update_same wired_def)
qed

lemma closedRoomsClear_closeRoom:
  assumes "closedRoomsClear s" "unsubscribeOnDisconnect e"
  shows "closedRoomsClear (closeRoom e r s)"
  using assms(1) unfolding closedRoomsClear_def closeRoom_rooms_unsubscribed [OF assms(2)]
  by (simp add: list_all_update)

text \<open>The events of the room service.\<close>

lemma trackSub_audio:
  assumes "isOpen r s" "wired (rooms s ! r)" "kind track = Audio"
  shows "trace (roomServiceEvent e r (TrackSub track identity) s)
           = trace s @ [Attach (trackSid track), AppendChild (length (documentBody s))]"
    and "rooms (roomServiceEvent e r (TrackSub track identity) s)
           = (rooms s)[r := (rooms s ! r)\<lparr>subscribed := subscribed (rooms s ! r) @ [track]\<rparr>]"
    and "documentBody (roomServiceEvent e r (TrackSub track identity) s)
           = documentBody s @ [\<lparr>autoplay = True, srcTrack = Some (trackSid track)\<rparr>]"
  using assms
  by (simp_all add: isOpen_def hasListener_def wired_def updRoom_def Let_def onTrackSubscribed_def)

lemma trackUnsub_subscribed:
  assumes "isOpen r s" "wired (rooms s ! r)" "track \<in> set (subscribed (rooms s ! r))"
  shows "trace (roomServiceEvent e r (TrackUnsub track) s) = trace s @ [Detach (trackSid track)]"
    and "rooms (roomServiceEvent e r (TrackUnsub track) s)
           = (rooms s)[r := (rooms s ! r)\<lparr>subscribed := remove1 track (subscribed (rooms s ! r))\<rparr>]"
    and "documentBody (roomServiceEvent e r (TrackUnsub track) s)
           = map (\<lambda>el. if srcTrack el = Some (trackSid track) then el\<lparr>srcTrack := None\<rparr> else el)
               (documentBody s)"
  using assms
  by (simp_all add: isOpen_def hasListener_def wired_def updRoom_def Let_def onTrackUnsubscribed_def)

lemma participant_frame:
  "trace (roomServiceEvent e r (ParticipantJoined identity) s) = trace s"
  "trace (roomServiceEvent e r (ParticipantLeft identity) s) = trace s"
  "documentBody (roomServiceEvent e r (ParticipantJoined identity) s) = documentBody s"
  "documentBody (roomServiceEvent e r (ParticipantLeft identity) s) = documentBody s"
  "map subscribed (rooms (roomServiceEvent e r (ParticipantJoined identity) s))
     = map subscribed (rooms s)"
  "map subscribed (rooms (roomServiceEvent e r (ParticipantLeft identity) s))
     = map subscribed (rooms s)"
  "map wired (rooms (roomServiceEvent e r (ParticipantJoined identity) s)) = map wired (rooms s)"
  "map wired (rooms (roomServiceEvent e r (ParticipantLeft identity) s)) = map wired (rooms s)"
  "map (\<lambda>i. connOpen i \<or> subscribed i = [])
       (rooms (roomServiceEvent e r (ParticipantJoined identity) s))
     = map (\<lambda>i. connOpen i \<or> subscribed i = []) (rooms s)"
  "map (\<lambda>i. connOpen i \<or> subscribed i = [])
       (rooms (roomServiceEvent e r (ParticipantLeft identity) s))
     = map (\<lambda>i. connOpen i \<or> subscribed i = []) (rooms s)"
  by (simp_all add: Let_def updRoom_def onParticipantConnected_def onParticipantDisconnected_def
      map_update_same wired_def)

lemma matched_participant:
  "matched (roomServiceEvent e r (ParticipantJoined identity) s) = matched s"
  "matched (roomServiceEvent e r (ParticipantLeft identity) s) = matched s"
  by (rule matched_frame; simp only: participant_frame)+

lemma closedRoomsClear_participant:
  "closedRoomsClear (roomServiceEvent e r (ParticipantJoined identity) s) = closedRoomsClear s"
  "closedRoomsClear (roomServiceEvent e r (ParticipantLeft identity) s) = closedRoomsClear s"
  by (rule closedRoomsClear_frame; simp only: participant_frame)+

lemma matched_event:
  assumes m: "matched s" and audio: "audioOnly ev"
  shows "matched (roomServiceEvent e r ev s)"
proof (cases ev)
  case (ParticipantJoined identity)
  show ?thesis
    unfolding ParticipantJoined using m by (simp only: matched_participant)
next
  case (ParticipantLeft identity)
  show ?thesis
    unfolding ParticipantLeft using m by (simp only: matched_participant)
next
  case (TrackSub track identity)
  show ?thesis
  proof (cases "isOpen r s")
    case False
    then show ?thesis
      using m TrackSub by simp
  next
    case True
    then have r: "r < length (rooms s)"
      by (simp add: isOpen_def)
    have w: "wired (rooms s ! r)"
      using m r by (rule matched_wired)
    have k: "kind track = Audio"
      using audio TrackSub by simp
    note ev = trackSub_audio [OF True w k, of e identity]
    let ?x = "(rooms s ! r)\<lparr>subscribed := subscribed (rooms s ! r) @ [track]\<rparr>"
    have "matched (roomServiceEvent e r (TrackSub track identity) s)"
    proof (rule matched_step [OF m, where a = 1 and d = 0])
      show "attachCount (roomServiceEvent e r (TrackSub track identity) s) = attachCount s + 1"
        unfolding attachCount_def ev(1) by simp
      show "detachCount (roomServiceEvent e r (TrackSub track identity) s) = detachCount s + 0"
        unfolding detachCount_def ev(1) by simp
      show "pending (roomServiceEvent e r (TrackSub track identity) s) + 0 = pending s + 1"
        using sum_list_map_update [OF r, of "\<lambda>i. length (subscribed i)" ?x]
        unfolding pending_def ev(2) by simp
      show "length (documentBody (roomServiceEvent e r (TrackSub track identity) s))
              = length (documentBody s) + 1"
        unfolding ev(3) by simp
      have "wired ?x"
        using w by (simp add: wired_def)
      then show "list_all wired (rooms (roomServiceEvent e r (TrackSub track identity) s))"
        using m unfolding ev(2) by (simp add: matched_def list_all_update)
    qed
    then show ?thesis
      unfolding TrackSub .
  qed
next
  case (TrackUnsub track)
  show ?thesis
  proof (cases "isOpen r s \<and> track \<in> set (subscribed (rooms s ! r))")
    case False
    then show ?thesis
      using m TrackUnsub by auto
  next
    case True
    then have r: "r < length (rooms s)"
      by (simp add: isOpen_def)
    have w: "wired (rooms s ! r)"
      using m r by (rule matched_wired)
    from True have opn: "isOpen r s" and sub: "track \<in> set (subscribed (rooms s ! r))"
      by simp_all
    note ev = trackUnsub_subscribed [OF opn w sub, of e]
    let ?x = "(rooms s ! r)\<lparr>subscribed := remove1 track (subscribed (rooms s ! r))\<rparr>"
    have len: "length (subscribed (rooms s ! r)) = Suc (length (remove1 track (subscribed (rooms s ! r))))"
      using sub by (simp add: length_remove1) (metis Suc_pred length_pos_if_in_set)
    have "matched (roomServiceEvent e r (TrackUnsub track) s)"
    proof (rule matched_step [OF m, where a = 0 and d = 1])
      show "attachCount (roomServiceEvent e r (TrackUnsub track) s) = attachCount s + 0"
        unfolding attachCount_def ev(1) by simp
      show "detachCount (roomServiceEvent e r (TrackUnsub track) s) = detachCount s + 1"
        unfolding detachCount_def ev(1) by simp
      show "pending (roomServiceEvent e r (TrackUnsub track) s) + 1 = pending s + 0"
        using sum_list_map_update [OF r, of "\<lambda>i. length (subscribed i)" ?x] len
        unfolding pending_def ev(2) by simp
      show "length (documentBody (roomServiceEvent e r (TrackUnsub track) s))
              = length (documentBody s) + 0"
        unfolding ev(3) by simp
      have "wired ?x"
        using w by (simp add: wired_def)
      then show "list_all wired (rooms (roomServiceEvent e r (TrackUnsub track) s))"
        using m unfolding ev(2) by (simp add: matched_def list_all_update)
    qed
    then show ?thesis
      unfolding TrackUnsub .
  qed
next
  case ServerDisconnect
  then show ?thesis
    using m matched_closeRoom [OF m, of r e] by (simp add: isOpen_def)
qed

lemma closedRoomsClear_event:
  assumes c: "closedRoomsClear s" and u: "unsubscribeOnDisconnect e"
  shows "closedRoomsClear (roomServiceEvent e r ev s)"
proof (cases "isOpen r s")
  case False
  then show ?thesis
    using c by (cases ev) simp_all
next
  case True
  then have opn: "connOpen (rooms s ! r)"
    by (simp add: isOpen_def)
  show ?thesis
  proof (cases ev)
    case (ParticipantJoined identity)
    show ?thesis
      unfolding ParticipantJoined using c by (simp only: closedRoomsClear_participant)
  next
    case (ParticipantLeft identity)
    show ?thesis
      unfolding ParticipantLeft using c by (simp only: closedRoomsClear_participant)
  next
    case (TrackSub track identity)
    then show ?thesis
      using c opn True
      by (simp add: closedRoomsClear_def list_all_update Let_def updRoom_def
          onTrackSubscribed_def)
  next
    case (TrackUnsub track)
    then show ?thesis
      using c opn True
      by (simp add: closedRoomsClear_def list_all_update Let_def updRoom_def
          onTrackUnsubscribed_def)
  next
    case ServerDisconnect
    then show ?thesis
      using True closedRoomsClear_closeRoom [OF c u, of r] by simp
  qed
qed

text \<open>\<open>stopVoiceInterview\<close>: the one step that touches the tracks of a room is its closing.\<close>

lemma matched_updateStatus [simp]:
  "matched (updateStatus e m k s) = matched s"
  by (rule matched_frame) simp_all

lemma closedRoomsClear_updateStatus [simp]:
  "closedRoomsClear (updateStatus e m k s) = closedRoomsClear s"
  by (simp add: closedRoomsClear_def)

lemma matched_releaseTrack:
  "matched (snd (releaseTrack e ot s)) = matched s"
  by (rule matched_frame) (cases ot; simp)+

lemma matched_notifyBackend:
  "matched (snd (notifyBackend e s)) = matched s"
  by (rule matched_frame) (simp_all add: notifyBackend_trace)

lemma matched_releaseRoom:
  assumes m: "matched s"
  shows "matched (snd (releaseRoom e orr s))"
proof (cases orr)
  case None
  then show ?thesis
    using m by (simp add: releaseRoom_def)
next
  case (Some r)
  let ?s1 = "s\<lparr>trace := trace s @ [Disconnect r]\<rparr>"
  have m1: "matched ?s1"
    using m by (simp add: matched_frame [of ?s1 s])
  show ?thesis
  proof (cases "disconnectResult e")
    case err: (Some err)
    then show ?thesis
      using Some m1 by (simp add: releaseRoom_def roomDisconnect_cases(3))
  next
    case None
    show ?thesis
    proof (cases "isOpen r s")
      case True
      then have "r < length (rooms ?s1)"
        by (simp add: isOpen_def)
      then have "matched (closeRoom e r ?s1)"
        by (rule matched_closeRoom [OF m1])
      then show ?thesis
        using Some None True by (simp add: releaseRoom_def roomDisconnect_cases(1))
    next
      case False
      then show ?thesis
        using Some None m1 by (simp add: releaseRoom_def roomDisconnect_cases(2))
    qed
  qed
qed

lemma closedRoomsClear_releaseRoom:
  assumes c: "closedRoomsClear s" and u: "unsubscribeOnDisconnect e"
  shows "closedRoomsClear (snd (releaseRoom e orr s))"
proof (cases orr)
  case None
  then show ?thesis
    using c by (simp add: releaseRoom_def)
next
  case (Some r)
  let ?s1 = "s\<lparr>trace := trace s @ [Disconnect r]\<rparr>"
  have c1: "closedRoomsClear ?s1"
    using c by (simp add: closedRoomsClear_def)
  have "closedRoomsClear (closeRoom e r ?s1)"
    using c1 u by (rule closedRoomsClear_closeRoom)
  then show ?thesis
    using Some c1
    by (cases "disconnectResult e"; cases "isOpen r s")
       (simp_all add: releaseRoom_def roomDisconnect_cases)
qed

lemma matched_stop:
  assumes "matched s"
  shows "matched (stopVoiceInterview e s)"
proof -
  let ?s1 = "updateStatus e ''Stopping interview...'' Info s"
  let ?a = "releaseTrack e (localAudioTrack s) ?s1"
  let ?b = "releaseRoom e (room s) (snd ?a)"
  let ?c = "notifyBackend e (snd ?b)"
  have m1: "matched ?s1"
    using assms by simp
  have res: "matched (stopVoiceInterview e s) =
      matched (snd (if fst ?a \<noteq> None then ?a else if fst ?b \<noteq> None then ?b else ?c))"
    unfolding stop_unfold [of e s] Let_def by (simp split: option.splits)
  have ma: "matched (snd ?a)"
    using m1 by (simp only: matched_releaseTrack)
  have mb: "matched (snd ?b)"
    using ma by (rule matched_releaseRoom)
  have mc: "matched (snd ?c)"
    using mb by (simp only: matched_notifyBackend)
  show ?thesis
    unfolding res using ma mb mc by simp
qed

lemma closedRoomsClear_stop:
  assumes c: "closedRoomsClear s" and u: "unsubscribeOnDisconnect e"
  shows "closedRoomsClear (stopVoiceInterview e s)"
proof -
  let ?s1 = "updateStatus e ''Stopping interview...'' Info s"
  let ?a = "releaseTrack e (localAudioTrack s) ?s1"
  let ?b = "releaseRoom e (room s) (snd ?a)"
  let ?c = "notifyBackend e (snd ?b)"
  have res: "closedRoomsClear (stopVoiceInterview e s) =
      closedRoomsClear (snd (if fst ?a \<noteq> None then ?a else if fst ?b \<noteq> None then ?b else ?c))"
    unfolding stop_unfold [of e s] Let_def by (simp split: option.splits)
  have ca: "closedRoomsClear (snd ?a)"
    using c by (simp add: closedRoomsClear_def)
  have cb: "closedRoomsClear (snd ?b)"
    using ca u by (rule closedRoomsClear_releaseRoom)
  have cc: "closedRoomsClear (snd ?c)"
    using cb by (simp add: closedRoomsClear_def)
  show ?thesis
    unfolding res using ca cb cc by simp
qed

text \<open>With every closed room clear and no room open, no track is subscribed.\<close>

lemma pending_none:
  assumes "closedRoomsClear s" "\<not> connectionOpen s"
  shows "pending s = 0"
  using assms
  by (auto simp add: closedRoomsClear_def connectionOpen_def pending_def list_all_iff list_ex_iff)

text \<open>The document body is never made shorter.\<close>

lemma releaseRoom_body [simp]:
  "length (documentBody (snd (releaseRoom e orr s))) = length (documentBody s)"
  by (cases orr; cases "disconnectResult e")
     (simp_all add: releaseRoom_def roomDisconnect_def Let_def)

lemma stop_body_length:
  "length (documentBody (stopVoiceInterview e s)) = length (documentBody s)"
proof -
  let ?s1 = "updateStatus e ''Stopping interview...'' Info s"
  let ?a = "releaseTrack e (localAudioTrack s) ?s1"
  let ?b = "releaseRoom e (room s) (snd ?a)"
  let ?c = "notifyBackend e (snd ?b)"
  have res: "documentBody (stopVoiceInterview e s) =
      documentBody (snd (if fst ?a \<noteq> None then ?a else if fst ?b \<noteq> None then ?b else ?c))"
    unfolding stop_unfold [of e s] Let_def by (simp split: option.splits)
  show ?thesis
    unfolding res by simp
qed

lemma event_documentBody_grows:
  "length (documentBody s) \<le> length (documentBody (roomServiceEvent e r ev s))"
  by (cases ev)
     (simp_all add: Let_def updRoom_def onParticipantConnected_def onParticipantDisconnected_def
        onTrackSubscribed_def onTrackUnsubscribed_def)

lemma detach_leaves_no_source:
  "list_all (\<lambda>el. srcTrack el \<noteq> Some sid)
     (map (\<lambda>el. if srcTrack el = Some sid then el\<lparr>srcTrack := None\<rparr> else el) els)"
  by (induction els) simp_all

lemma initialState_matched:
  "matched initialState" "closedRoomsClear initialState"
  by (simp_all add: matched_def closedRoomsClear_def attachCount_def detachCount_def pending_def
      initialState_def)

text \<open>
  C6, as the code has it. In the initial state, and then after every \<open>start()\<close>, every
  \<open>stop()\<close> and every event of the room service that brings no track of another kind than
  audio, every attach is matched by exactly one detach but for the tracks still
  subscribed, and the document body holds one audio element for each attach. A
  track-subscribed event for an audio track attaches the track to one new autoplay audio
  element, appended to the document body; a track-unsubscribed event for a subscribed
  track detaches it once, and afterwards no element of the document plays that track.
  Where the room service unsubscribes the tracks of a room as it closes the room, no
  closed room has a track subscribed; so once no connection is open, every
  track-subscribed event has been matched by a track-unsubscribed detach and the attach
  and detach counts are equal. The playback element is detached but not removed: neither
  \<open>start()\<close> nor \<open>stop()\<close> nor any event of the room service makes the document body
  shorter.
\<close>

theorem attaches_matched_by_detaches_sinks_stay:
  "matched initialState \<and> closedRoomsClear initialState
   \<and> (matched s \<longrightarrow>
        matched (startVoiceInterview e s)
        \<and> matched (stopVoiceInterview e s)
        \<and> (audioOnly ev \<longrightarrow> matched (roomServiceEvent e r ev s))
        \<and> attachCount s = detachCount s + pending s
        \<and> length (documentBody s) = attachCount s
        \<and> (closedRoomsClear s \<and> \<not> connectionOpen s \<longrightarrow> attachCount s = detachCount s)
        \<and> (isOpen r s \<and> kind track = Audio \<longrightarrow>
             documentBody (roomServiceEvent e r (TrackSub track identity) s)
               = documentBody s @ [\<lparr>autoplay = True, srcTrack = Some (trackSid track)\<rparr>]
             \<and> attachCount (roomServiceEvent e r (TrackSub track identity) s)
               = attachCount s + 1
             \<and> detachCount (roomServiceEvent e r (TrackSub track identity) s)
               = detachCount s)
        \<and> (isOpen r s \<and> track \<in> set (subscribed (rooms s ! r)) \<longrightarrow>
             detachCount (roomServiceEvent e r (TrackUnsub track) s) = detachCount s + 1
             \<and> attachCount (roomServiceEvent e r (TrackUnsub track) s) = attachCount s
             \<and> list_all (\<lambda>el. srcTrack el \<noteq> Some (trackSid track))
                  (documentBody (roomServiceEvent e r (TrackUnsub track) s))))
   \<and> (closedRoomsClear s \<and> unsubscribeOnDisconnect e \<longrightarrow>
        closedRoomsClear (startVoiceInterview e s)
        \<and> closedRoomsClear (stopVoiceInterview e s)
        \<and> closedRoomsClear (roomServiceEvent e r ev s))
   \<and> documentBody (startVoiceInterview e s) = documentBody s
   \<and> length (documentBody (stopVoiceInterview e s)) = length (documentBody s)
   \<and> length (documentBody s) \<le> length (documentBody (roomServiceEvent e r ev s))"
proof -
  have inv: "attachCount s = detachCount s + pending s \<and> length (documentBody s) = attachCount s"
    if "matched s"
    using that by (simp add: matched_def)
  have ended: "attachCount s = detachCount s"
    if "matched s" "closedRoomsClear s" "\<not> connectionOpen s"
    using that pending_none [of s] by (simp add: matched_def)
  have sub: "documentBody (roomServiceEvent e r (TrackSub track identity) s)
               = documentBody s @ [\<lparr>autoplay = True, srcTrack = Some (trackSid track)\<rparr>]
             \<and> attachCount (roomServiceEvent e r (TrackSub track identity) s)
               = attachCount s + 1
             \<and> detachCount (roomServiceEvent e r (TrackSub track identity) s)
               = detachCount s"
    if m: "matched s" and opn: "isOpen r s" and k: "kind track = Audio"
  proof -
    have w: "wired (rooms s ! r)"
      using m opn by (simp add: matched_wired isOpen_def)
    note ev = trackSub_audio [OF opn w k, of e identity]
    show ?thesis
      unfolding attachCount_def detachCount_def ev by simp
  qed
  have unsub: "detachCount (roomServiceEvent e r (TrackUnsub track) s) = detachCount s + 1
             \<and> attachCount (roomServiceEvent e r (TrackUnsub track) s) = attachCount s
             \<and> list_all (\<lambda>el. srcTrack el \<noteq> Some (trackSid track))
                  (documentBody (roomServiceEvent e r (TrackUnsub track) s))"
    if m: "matched s" and opn: "isOpen r s" and held: "track \<in> set (subscribed (rooms s ! r))"
  proof -
    have w: "wired (rooms s ! r)"
      using m opn by (simp add: matched_wired isOpen_def)
    note ev = trackUnsub_subscribed [OF opn w held, of e]
    show ?thesis
      unfolding attachCount_def detachCount_def ev by (simp add: detach_leaves_no_source)
  qed
  have clear: "closedRoomsClear (startVoiceInterview e s)
        \<and> closedRoomsClear (stopVoiceInterview e s)
        \<and> closedRoomsClear (roomServiceEvent e r ev s)"
    if "closedRoomsClear s" "unsubscribeOnDisconnect e"
    using that closedRoomsClear_start [of s e] closedRoomsClear_stop [of s e]
      closedRoomsClear_event [of s e r ev]
    by blast
  have body: "documentBody (startVoiceInterview e s) = documentBody s"
    using start_effect [of e s] by blast
  show ?thesis
    using initialState_matched matched_start [of s e] matched_stop [of s e]
      matched_event [of s ev e r] inv ended sub unsub clear body stop_body_length [of e s]
      event_documentBody_grows [of s e r ev]
    by blast
qed

text \<open>
  The scenario of the specification: the session connects, the agent's audio track is
  subscribed, and \<open>stop()\<close> ends the session. The room service unsubscribes the track as
  it closes the room: one attach, one detach, no connection open, and one audio element
  left in the document.
\<close>

theorem attaches_matched_by_detaches_sinks_stay_witness:
  "matched initialState \<and> matched connectedSession \<and> audioOnly (TrackSub agentTrack ''agent'')
   \<and> matched heardSession \<and> pending heardSession = 1
   \<and> unsubscribeOnDisconnect scenarioEnv
   \<and> closedRoomsClear (stopVoiceInterview scenarioEnv heardSession)
   \<and> \<not> connectionOpen (stopVoiceInterview scenarioEnv heardSession)
   \<and> attachCount (stopVoiceInterview scenarioEnv heardSession)
       = detachCount (stopVoiceInterview scenarioEnv heardSession)
   \<and> attachCount (stopVoiceInterview scenarioEnv heardSession) = 1
   \<and> length (documentBody (stopVoiceInterview scenarioEnv heardSession)) = 1"
proof -
  let ?end = "stopVoiceInterview scenarioEnv heardSession"
  note T = attaches_matched_by_detaches_sinks_stay
  have u: "unsubscribeOnDisconnect scenarioEnv"
    by (simp add: scenarioEnv_def)
  have a: "audioOnly (TrackSub agentTrack ''agent'')"
    by (simp add: agentTrack_def)
  have m0: "matched initialState" and c0: "closedRoomsClear initialState"
    using T [of initialState scenarioEnv ServerDisconnect 0 agentTrack "''agent''"] by blast+
  have m1: "matched connectedSession" and c1: "closedRoomsClear connectedSession"
    unfolding connectedSession_def
    using T [of initialState scenarioEnv ServerDisconnect 0 agentTrack "''agent''"] m0 c0 u
    by blast+
  have m2: "matched heardSession" and c2: "closedRoomsClear heardSession"
    unfolding heardSession_def
    using T [of connectedSession scenarioEnv "TrackSub agentTrack ''agent''" 0 agentTrack "''agent''"]
      m1 c1 u a
    by blast+
  have m3: "matched ?end" and c3: "closedRoomsClear ?end"
    using T [of heardSession scenarioEnv ServerDisconnect 0 agentTrack "''agent''"] m2 c2 u
    by blast+
  have no: "\<not> connectionOpen ?end"
    by (simp add: heardSession_def connectedSession_def evalDefs connectionOpen_def)
  have eq: "attachCount ?end = detachCount ?end" and len: "length (documentBody ?end) = attachCount ?end"
    using T [of ?end scenarioEnv ServerDisconnect 0 agentTrack "''agent''"] m3 c3 no
    by blast+
  have one: "attachCount ?end = 1"
    by (simp add: heardSession_def connectedSession_def evalDefs attachCount_def)
  have p: "pending heardSession = 1"
    by (simp add: heardSession_def connectedSession_def evalDefs pending_def)
  show ?thesis
    using m0 m1 a m2 p u c3 no eq one len by simp
qed

text \<open>
  As the specification states it, the playback sink of an unsubscribed track is removed,
  no playback element is left at the end of the session, and the attach and detach counts
  are equal there. With the agent's audio track subscribed and unsubscribed, after
  \<open>stop()\<close> the counts are equal and no connection is open, yet the audio element is
  still in the document body, playing nothing. And with a video track subscribed and
  unsubscribed, the track is detached without having been attached: no attach, one
  detach.
\<close>

theorem unsubscribed_sink_stays_in_document:
  "attachCount (stopVoiceInterview scenarioEnv silentSession) = 1
   \<and> detachCount (stopVoiceInterview scenarioEnv silentSession) = 1
   \<and> \<not> connectionOpen (stopVoiceInterview scenarioEnv silentSession)
   \<and> documentBody (stopVoiceInterview scenarioEnv silentSession)
       = [\<lparr>autoplay = True, srcTrack = None\<rparr>]
   \<and> kind cameraTrack = Video
   \<and> \<not> connectionOpen (stopVoiceInterview scenarioEnv watchedSession)
   \<and> attachCount (stopVoiceInterview scenarioEnv watchedSession) = 0
   \<and> detachCount (stopVoiceInterview scenarioEnv watchedSession) = 1"
  by (simp add: silentSession_def heardSession_def watchedSession_def connectedSession_def
      evalDefs connectionOpen_def attachCount_def detachCount_def)

subsection \<open>Listeners and the connection attempt\<close>

lemma start_with_token:
  assumes "\<not> isConnecting s" "\<not> isConnected s"
    and "initResult e = Inr ri" "ok ri"
    and "tokenResult e = Inr rt" "ok rt" "respJson rt = Inr td"
  shows "startVoiceInterview e s =
     (case connectResult e of
        None \<Rightarrow> onConnected e (room s) (length (rooms s))
                  (atConnect e (room s) (livekit_url td) (token td) True (beginStart e s))
      | Some err \<Rightarrow> catchConnection e err
                  (atConnect e (room s) (livekit_url td) (token td) False (beginStart e s)))
     \<lparr>isConnecting := False\<rparr>"
proof -
  have "getTokenFromBackend e (beginStart e s) = (Inr td, afterToken e (beginStart e s))"
    using assms(3-7) by (simp add: getToken_ok)
  then show ?thesis
    using assms(1,2) by (simp add: start_idle startTry_token_cases split: option.splits)
qed

lemma onConnected_listeners:
  assumes "r < length (rooms s)"
  shows "listeners (rooms (onConnected e cr r s) ! r) = listeners (rooms s ! r)"
proof (cases "micResult e")
  case (Some err)
  then show ?thesis by (simp add: onConnected_micFail)
next
  case None
  show ?thesis
  proof (cases "publishResult e")
    case (Some err)
    with None show ?thesis by (simp add: onConnected_publishFail)
  next
    case pub: None
    with None assms show ?thesis by (simp add: onConnected_ok)
  qed
qed

text \<open>
  C7, with the count put right. During \<open>start()\<close>, six event listeners (connected,
  participant-joined, participant-left, track-subscribed, track-unsubscribed,
  disconnected) are registered on the new room before the connection attempt is issued.
  Whatever the collaborators answer, every \<open>connect\<close> among the calls of \<open>start()\<close> comes
  after the six registrations on its room; and when the credential is obtained the calls
  begin with the two requests, the new room, the six registrations in the order of the
  source and the one \<open>connect\<close>, the room holding the six listeners.
\<close>

theorem listeners_registered_before_connect:
  assumes "\<not> isConnecting s" "\<not> isConnected s"
  shows "listenersReady [] (newActions s (startVoiceInterview e s))
    \<and> length allRoomEvents = 6
    \<and> (initResult e = Inr ri \<and> ok ri \<and> tokenResult e = Inr rt \<and> ok rt \<and> respJson rt = Inr td \<longrightarrow>
         prefix ([Fetch initRequest, Fetch tokenRequest, NewRoom (length (rooms s)) True True]
                 @ map (On (length (rooms s))) allRoomEvents
                 @ [Connect (length (rooms s)) (livekit_url td) (token td)])
           (newActions s (startVoiceInterview e s))
         \<and> filter isConnect (newActions s (startVoiceInterview e s))
            = [Connect (length (rooms s)) (livekit_url td) (token td)]
         \<and> listeners (rooms (startVoiceInterview e s) ! length (rooms s)) = allRoomEvents)"
proof -
  let ?s' = "startVoiceInterview e s"
  let ?r = "length (rooms s)"
  have general: "listenersReady [] (newActions s ?s')"
    using start_newActions_cases [OF assms, of e]
    by (auto simp add: setupActions_def allRoomEvents_def listenersReady_micActions)
  have six: "length allRoomEvents = 6"
    by (simp add: allRoomEvents_def)
  have explicit: "prefix ([Fetch initRequest, Fetch tokenRequest, NewRoom ?r True True]
                 @ map (On ?r) allRoomEvents @ [Connect ?r (livekit_url td) (token td)])
           (newActions s ?s')
         \<and> filter isConnect (newActions s ?s') = [Connect ?r (livekit_url td) (token td)]
         \<and> listeners (rooms ?s' ! ?r) = allRoomEvents"
    if creds: "initResult e = Inr ri" "ok ri" "tokenResult e = Inr rt" "ok rt" "respJson rt = Inr td"
  proof -
    note eq = start_with_token [OF assms creds]
    show ?thesis
    proof (cases "connectResult e")
      case None
      have tr: "newActions s ?s' = ([Fetch initRequest, Fetch tokenRequest, NewRoom ?r True True]
                 @ map (On ?r) allRoomEvents @ [Connect ?r (livekit_url td) (token td)])
                 @ micActions e ?r (length (localTracks s))"
        using None by (simp add: eq newActions_def setupActions_def allRoomEvents_def)
      have "filter isConnect (newActions s ?s') = [Connect ?r (livekit_url td) (token td)]"
        unfolding tr by (simp add: allRoomEvents_def micActions_def split: option.splits)
      moreover have "listeners (rooms ?s' ! ?r) = allRoomEvents"
        using None by (simp add: eq onConnected_listeners readyRoom_def)
      moreover have "prefix ([Fetch initRequest, Fetch tokenRequest, NewRoom ?r True True]
                 @ map (On ?r) allRoomEvents @ [Connect ?r (livekit_url td) (token td)])
           (newActions s ?s')"
        unfolding tr by (rule prefixI) simp
      ultimately show ?thesis by simp
    next
      case (Some err)
      have tr: "newActions s ?s' = [Fetch initRequest, Fetch tokenRequest, NewRoom ?r True True]
                 @ map (On ?r) allRoomEvents @ [Connect ?r (livekit_url td) (token td)]"
        using Some by (simp add: eq newActions_def setupActions_def allRoomEvents_def)
      have "filter isConnect (newActions s ?s') = [Connect ?r (livekit_url td) (token td)]"
        unfolding tr by (simp add: allRoomEvents_def)
      moreover have "listeners (rooms ?s' ! ?r) = allRoomEvents"
        using Some by (simp add: eq readyRoom_def)
      moreover have "prefix ([Fetch initRequest, Fetch tokenRequest, NewRoom ?r True True]
                 @ map (On ?r) allRoomEvents @ [Connect ?r (livekit_url td) (token td)])
           (newActions s ?s')"
        unfolding tr by simp
      ultimately show ?thesis by simp
    qed
  qed
  show ?thesis
    using general six explicit by blast
qed

text \<open>The scenario: the six registrations on room 0, then the connection to \<open>wss://x\<close>.\<close>

theorem listeners_registered_before_connect_witness:
  "listenersReady [] (trace connectedSession)
   \<and> prefix [Fetch initRequest, Fetch tokenRequest, NewRoom 0 True True,
        On 0 Connected, On 0 ParticipantConnected, On 0 ParticipantDisconnected,
        On 0 TrackSubscribed, On 0 TrackUnsubscribed, On 0 Disconnected,
        Connect 0 ''wss://x'' ''abc''] (trace connectedSession)
   \<and> listeners (rooms connectedSession ! 0) = allRoomEvents"
proof -
  have env: "initResult scenarioEnv = Inr okResponse" "tokenResult scenarioEnv = Inr tokenOkResponse"
    by (simp_all add: scenarioEnv_def)
  have ini: "rooms initialState = []" "trace initialState = []"
    by (simp_all add: initialState_def)
  have td: "livekit_url tokenData = ''wss://x''" "token tokenData = ''abc''"
    by (simp_all add: tokenData_def)
  show ?thesis
    using listeners_registered_before_connect [OF scenario_hyps(1,2), of scenarioEnv okResponse
        tokenOkResponse tokenData] env scenario_hyps(3,4,5) ini td
    by (simp add: connectedSession_def newActions_def allRoomEvents_def)
qed

text \<open>
  As the specification states it, five listeners are registered. Six registrations come
  before the connection attempt.
\<close>

theorem six_listeners_not_five:
  "length (filter isOn (takeWhile (\<lambda>a. \<not> isConnect a) (trace connectedSession))) = 6
   \<and> length (listeners (rooms connectedSession ! 0)) \<noteq> 5"
  by (simp add: connectedSession_def evalDefs)

subsection \<open>Acquiring the microphone\<close>

text \<open>
  C8. When the connection opens, the session is Connected and the microphone is requested
  exactly once, with echo cancellation, noise suppression and automatic gain control on.
  When the device is granted, the track is handed to \<open>publishTrack\<close> on the new room; when
  the publication succeeds too, the track is published on the room and held by the
  component.
\<close>

theorem microphone_acquired_once_on_connect:
  assumes "\<not> isConnecting s" "\<not> isConnected s"
    and "initResult e = Inr ri" "ok ri"
    and "tokenResult e = Inr rt" "ok rt" "respJson rt = Inr td"
    and "connectResult e = None"
  shows "isConnecting (beginStart e s)
    \<and> isConnected (startVoiceInterview e s)
    \<and> filter isCreateTrack (newActions s (startVoiceInterview e s))
        = [CreateLocalAudioTrack micOptions]
    \<and> echoCancellation micOptions \<and> noiseSuppression micOptions \<and> autoGainControl micOptions
    \<and> (micResult e = None \<longrightarrow>
         PublishTrack (length (rooms s)) (length (localTracks s))
           \<in> set (newActions s (startVoiceInterview e s))
         \<and> localTracks (startVoiceInterview e s)
            = localTracks s @ [\<lparr>captureOpts = micOptions, live = True\<rparr>])
    \<and> (micResult e = None \<and> publishResult e = None \<longrightarrow>
         localAudioTrack (startVoiceInterview e s) = Some (length (localTracks s))
         \<and> published (rooms (startVoiceInterview e s) ! length (rooms s))
            = [length (localTracks s)])"
proof -
  let ?s' = "startVoiceInterview e s"
  let ?c = "atConnect e (room s) (livekit_url td) (token td) True (beginStart e s)"
  have eq: "?s' = (onConnected e (room s) (length (rooms s)) ?c)\<lparr>isConnecting := False\<rparr>"
    using assms startTry_connect_ok [of e ri rt td "room s" "beginStart e s"]
    by (simp add: start_idle)
  have tr: "newActions s ?s' = [Fetch initRequest, Fetch tokenRequest]
      @ setupActions (length (rooms s))
      @ [Connect (length (rooms s)) (livekit_url td) (token td)]
      @ micActions e (length (rooms s)) (length (localTracks s))"
    by (simp add: eq newActions_def)
  have "isConnected ?s'"
    by (simp add: eq)
  moreover have "filter isCreateTrack (newActions s ?s') = [CreateLocalAudioTrack micOptions]"
    unfolding tr by (simp add: setupActions_def micActions_def split: option.splits)
  moreover have "echoCancellation micOptions \<and> noiseSuppression micOptions
      \<and> autoGainControl micOptions"
    by (simp add: micOptions_def)
  moreover have "micResult e = None \<longrightarrow>
         PublishTrack (length (rooms s)) (length (localTracks s)) \<in> set (newActions s ?s')
         \<and> localTracks ?s' = localTracks s @ [\<lparr>captureOpts = micOptions, live = True\<rparr>]"
    unfolding tr by (simp add: eq micActions_def micTracks_def)
  moreover have "micResult e = None \<and> publishResult e = None \<longrightarrow>
         localAudioTrack ?s' = Some (length (localTracks s))
         \<and> published (rooms ?s' ! length (rooms s)) = [length (localTracks s)]"
    by (simp add: eq onConnected_ok readyRoom_def)
  ultimately show ?thesis
    by simp
qed

text \<open>
  The scenario of the specification: reference \<open>NORMALIZED_TEST_001\<close>, organization
  \<open>test_org\<close>, both requests answer 200, the connection opens.
\<close>

theorem microphone_acquired_once_on_connect_witness:
  "isConnected (startVoiceInterview scenarioEnv initialState)
   \<and> filter isCreateTrack (trace (startVoiceInterview scenarioEnv initialState))
       = [CreateLocalAudioTrack
           \<lparr>echoCancellation = True, noiseSuppression = True, autoGainControl = True\<rparr>]
   \<and> PublishTrack 0 0 \<in> set (trace (startVoiceInterview scenarioEnv initialState))
   \<and> localAudioTrack (startVoiceInterview scenarioEnv initialState) = Some 0
   \<and> published (rooms (startVoiceInterview scenarioEnv initialState) ! 0) = [0]"
proof -
  have env: "initResult scenarioEnv = Inr okResponse" "tokenResult scenarioEnv = Inr tokenOkResponse"
    "connectResult scenarioEnv = None" "micResult scenarioEnv = None"
    "publishResult scenarioEnv = None"
    by (simp_all add: scenarioEnv_def)
  have ini: "rooms initialState = []" "localTracks initialState = []" "trace initialState = []"
    by (simp_all add: initialState_def)
  show ?thesis
    using microphone_acquired_once_on_connect [OF scenario_hyps(1,2) env(1)
        scenario_hyps(3) env(2) scenario_hyps(4,5) env(3)] env(4,5) ini
    by (simp add: newActions_def micOptions_def)
qed

subsection \<open>The requests\<close>

lemma organization_header_on_every_request:
  "(''Organization'', organization) \<in> set (reqHeaders initRequest)"
  "(''Organization'', organization) \<in> set (reqHeaders tokenRequest)"
  "(''Organization'', organization) \<in> set (reqHeaders stopRequest)"
  by (simp_all add: initRequest_def tokenRequest_def stopRequest_def)

lemma init_failure_surfaces_body:
  assumes "\<not> isConnecting s" "\<not> isConnected s"
    and "initResult e = Inr ri" "\<not> ok ri"
  shows "isFailed (startVoiceInterview e s)"
    and "status (startVoiceInterview e s) =
         ''['' @ clock e (length (console s) + 2) @ ''] '' @ crossMark
         @ '' Connection failed: Init failed: '' @ showNat (respStatus ri) @ '' - '' @ respText ri"
    and "newActions s (startVoiceInterview e s) = [Fetch initRequest]"
proof -
  have g: "getTokenFromBackend e (beginStart e s) =
      (Inl (ErrorObj (''Init failed: '' @ showNat (respStatus ri) @ '' - '' @ respText ri)),
       doFetch initRequest (updateStatus e ''Initializing interview backend...'' Info (beginStart e s)))"
    using assms(3,4) by (simp add: getTokenFromBackend_def)
  have eq: "startVoiceInterview e s = (catchConnection e
      (ErrorObj (''Init failed: '' @ showNat (respStatus ri) @ '' - '' @ respText ri))
      (doFetch initRequest (updateStatus e ''Initializing interview backend...'' Info
         (beginStart e s))))\<lparr>isConnecting := False\<rparr>"
    using assms(1,2) by (simp add: start_idle startTry_no_token_trace [OF g])
  show "isFailed (startVoiceInterview e s)"
    using assms(2) by (simp add: eq isFailed_def)
  show "status (startVoiceInterview e s) =
         ''['' @ clock e (length (console s) + 2) @ ''] '' @ crossMark
         @ '' Connection failed: Init failed: '' @ showNat (respStatus ri) @ '' - '' @ respText ri"
    by (simp add: eq numeral_2_eq_2)
  show "newActions s (startVoiceInterview e s) = [Fetch initRequest]"
    by (simp add: eq newActions_def)
qed

text \<open>
  C9. All three requests carry the \<open>Organization\<close> header, and a response outside
  200..299 is a failure whose error shows the body text. The header is on all three, and
  the initialize and the credential request check \<open>ok\<close> and throw the status and the
  body. The teardown request does not: its response is never looked at, so a 500 with
  body \<open>server error\<close> ends in the success status, with nothing of the body in it.
\<close>

theorem teardown_error_response_reported_as_success:
  "\<not> ok serverError
   \<and> stopResult teardownErrorEnv = Inr serverError
   \<and> (''Organization'', organization) \<in> set (reqHeaders stopRequest)
   \<and> statusType (stopVoiceInterview teardownErrorEnv initialState) = Success
   \<and> status (stopVoiceInterview teardownErrorEnv initialState)
       = ''[10:00:00 AM] '' @ checkMark @ '' Interview stopped successfully''"
  by (simp add: evalDefs stopRequest_def)

subsection \<open>The teardown notification\<close>

lemma closeActions_no_fetch: "Fetch rq \<notin> set (closeActions e r s)"
  by (simp add: closeActions_def image_iff)

lemma cleanupActions_cases:
  "localAudioTrack s = None \<Longrightarrow> room s = None \<Longrightarrow> cleanupActions e s = []"
  "localAudioTrack s = Some t \<Longrightarrow> room s = None \<Longrightarrow> cleanupActions e s = [TrackStop t]"
  "localAudioTrack s = None \<Longrightarrow> room s = Some r \<Longrightarrow> cleanupActions e s =
     Disconnect r # (if disconnectResult e = None \<and> isOpen r s then closeActions e r s else [])"
  "localAudioTrack s = Some t \<Longrightarrow> room s = Some r \<Longrightarrow> cleanupActions e s =
     TrackStop t # (if trackStopResult e = None
       then Disconnect r # (if disconnectResult e = None \<and> isOpen r s then closeActions e r s else [])
       else [])"
  by (simp_all add: cleanupActions_def)

lemma cleanupActions_no_fetch: "Fetch rq \<notin> set (cleanupActions e s)"
proof (cases "localAudioTrack s")
  case noTrack: None
  show ?thesis
  proof (cases "room s")
    case None
    with noTrack show ?thesis by (simp add: cleanupActions_cases)
  next
    case (Some r)
    with noTrack show ?thesis by (simp add: cleanupActions_cases closeActions_no_fetch)
  qed
next
  case track: (Some t)
  show ?thesis
  proof (cases "room s")
    case None
    with track show ?thesis by (simp add: cleanupActions_cases)
  next
    case (Some r)
    with track show ?thesis by (simp add: cleanupActions_cases closeActions_no_fetch)
  qed
qed

lemma stop_statusType_when_cleanup_throws:
  assumes "\<not> cleanupCompletes e s"
  shows "statusType (stopVoiceInterview e s) = Error"
  using assms unfolding stop_unfold [of e s] Let_def
  by (cases "localAudioTrack s"; cases "trackStopResult e"; cases "room s";
      cases "disconnectResult e")
     (simp_all add: releaseTrack_fst releaseRoom_fst cleanupCompletes_def)

text \<open>
  C10, as the code has it. \<open>stop()\<close> sends the teardown POST to
  \<open>/stop_livekit_interview/\<close> exactly when the local cleanup before it completes: when no
  local track is held or \<open>track.stop()\<close> returns, and no room is held or
  \<open>room.disconnect()\<close> resolves. The request is then the last call of \<open>stop()\<close>, and the
  only one when the component holds no room and no local track, as before any \<open>start()\<close>.
  When the cleanup throws, the \<open>catch\<close> shows an error status and no request is sent.
\<close>

theorem stop_notifies_backend_when_cleanup_completes:
  "(Fetch stopRequest \<in> set (newActions s (stopVoiceInterview e s)))
     = ((localAudioTrack s = None \<or> trackStopResult e = None)
        \<and> (room s = None \<or> disconnectResult e = None))
   \<and> ((localAudioTrack s = None \<or> trackStopResult e = None)
        \<and> (room s = None \<or> disconnectResult e = None)
       \<longrightarrow> last (trace (stopVoiceInterview e s)) = Fetch stopRequest)
   \<and> (room s = None \<and> localAudioTrack s = None
       \<longrightarrow> newActions s (stopVoiceInterview e s) = [Fetch stopRequest])
   \<and> ((localAudioTrack s \<noteq> None \<and> trackStopResult e \<noteq> None)
        \<or> (room s \<noteq> None \<and> disconnectResult e \<noteq> None)
       \<longrightarrow> statusType (stopVoiceInterview e s) = Error)
   \<and> reqMethod stopRequest = ''POST''
   \<and> reqUrl stopRequest = apiUrl @ ''/stop_livekit_interview/''"
proof -
  have new: "newActions s (stopVoiceInterview e s)
      = cleanupActions e s @ (if cleanupCompletes e s then [Fetch stopRequest] else [])"
    by (simp add: newActions_def stop_trace)
  have mem: "(Fetch stopRequest \<in> set (newActions s (stopVoiceInterview e s)))
      = cleanupCompletes e s"
    unfolding new by (simp add: cleanupActions_no_fetch)
  have lst: "last (trace (stopVoiceInterview e s)) = Fetch stopRequest" if "cleanupCompletes e s"
    using that by (simp add: stop_trace)
  have idle: "newActions s (stopVoiceInterview e s) = [Fetch stopRequest]"
    if "room s = None \<and> localAudioTrack s = None"
    unfolding new using that by (simp add: cleanupActions_def cleanupCompletes_def)
  have thrown: "statusType (stopVoiceInterview e s) = Error" if "\<not> cleanupCompletes e s"
    using that by (rule stop_statusType_when_cleanup_throws)
  show ?thesis
    using mem lst idle thrown
    by (auto simp add: cleanupCompletes_def stopRequest_def)
qed

text \<open>
  Before any \<open>start()\<close>, the teardown request is the one request sent; and from the
  connected session of the scenario, where the cleanup completes, it is sent too.
\<close>

theorem stop_notifies_backend_when_cleanup_completes_witness:
  "room initialState = None \<and> localAudioTrack initialState = None
   \<and> requestsSent (stopVoiceInterview scenarioEnv initialState) = [stopRequest]
   \<and> room connectedSession = Some 0 \<and> localAudioTrack connectedSession = Some 0
   \<and> Fetch stopRequest \<in> set (newActions connectedSession
         (stopVoiceInterview scenarioEnv connectedSession))"
proof -
  have idle: "room initialState = None \<and> localAudioTrack initialState = None"
    by (simp add: initialState_def)
  have held: "room connectedSession = Some 0 \<and> localAudioTrack connectedSession = Some 0"
    by (simp add: connectedSession_def evalDefs)
  have calm: "trackStopResult scenarioEnv = None \<and> disconnectResult scenarioEnv = None"
    by (simp add: scenarioEnv_def)
  have "newActions initialState (stopVoiceInterview scenarioEnv initialState) = [Fetch stopRequest]"
    using stop_notifies_backend_when_cleanup_completes [of initialState scenarioEnv] idle
    by blast
  then have "trace (stopVoiceInterview scenarioEnv initialState) = [Fetch stopRequest]"
    by (simp add: newActions_def initialState_def)
  then have one: "requestsSent (stopVoiceInterview scenarioEnv initialState) = [stopRequest]"
    by (simp add: requestsSent_def)
  have "Fetch stopRequest \<in> set (newActions connectedSession
         (stopVoiceInterview scenarioEnv connectedSession))"
    using stop_notifies_backend_when_cleanup_completes [of connectedSession scenarioEnv] calm
    by simp
  then show ?thesis
    using idle held one by simp
qed

text \<open>
  As stated, \<open>stop()\<close> would send the teardown request whatever the state. From the
  connected session, when \<open>room.disconnect()\<close> rejects, the \<open>catch\<close> reports the error and
  no request is sent.
\<close>

theorem stop_skips_notification_when_disconnect_rejects:
  "room connectedSession = Some 0
   \<and> disconnectResult disconnectRejectEnv = Some (ErrorObj ''could not disconnect'')
   \<and> Fetch stopRequest \<notin> set (newActions connectedSession
         (stopVoiceInterview disconnectRejectEnv connectedSession))
   \<and> requestsSent (stopVoiceInterview disconnectRejectEnv connectedSession)
       = requestsSent connectedSession
   \<and> statusType (stopVoiceInterview disconnectRejectEnv connectedSession) = Error
   \<and> status (stopVoiceInterview disconnectRejectEnv connectedSession)
       = ''[10:00:00 AM] '' @ crossMark @ '' Stop error: could not disconnect''"
  by (simp add: connectedSession_def evalDefs newActions_def requestsSent_def)

end
